theory Spec2Isabelle
  imports Complex_Main
begin

section \<open>Values, records and the record store\<close>

text \<open>
  A record is a Python dict from field names to values. XML attributes are always strings;
  JSON and CSV records can carry any JSON value. Floats are read as reals: rounding and the
  special values of IEEE arithmetic are outside this development, but for the float
  \<^verbatim>\<open>nan\<close> that pandas puts where a CSV cell is empty. A \<^verbatim>\<open>nan\<close> is equal to no float, itself
  included, and Python finds it in a dict by identity only; so \<open>PNaN\<close> carries the identity of
  the float object (all empty cells of a column that also holds strings are the one object
  \<^verbatim>\<open>numpy.nan\<close>).
\<close>

datatype pyval =
    PNone
  | PNaN nat
  | PBool bool
  | PNum real
  | PStr string
  | PList "pyval list"
  | PDict "(string \<times> pyval) list"

type_synonym pyrecord = "(string \<times> pyval) list"

text \<open>Python truthiness, as used by \<^verbatim>\<open>if record_type:\<close> and \<^verbatim>\<open>record[field]\<close>.\<close>

fun truthy :: "pyval \<Rightarrow> bool" where
  "truthy PNone = False"
| "truthy (PNaN i) = True"
| "truthy (PBool b) = b"
| "truthy (PNum x) = (x \<noteq> 0)"
| "truthy (PStr s) = (s \<noteq> [])"
| "truthy (PList xs) = (xs \<noteq> [])"
| "truthy (PDict kvs) = (kvs \<noteq> [])"

text \<open>
  The key under which a value is stored in a dict: lists and dicts are unhashable
  (\<^verbatim>\<open>TypeError\<close>), and \<^verbatim>\<open>True == 1\<close>, \<^verbatim>\<open>False == 0\<close> are the same key as the number.
  A \<^verbatim>\<open>nan\<close> is hashable, and a key of its own unless it is the same object.
\<close>

fun dict_key :: "pyval \<Rightarrow> pyval option" where
  "dict_key (PList xs) = None"
| "dict_key (PDict kvs) = None"
| "dict_key (PBool b) = Some (PNum (if b then 1 else 0))"
| "dict_key v = Some v"

type_synonym type_index = "(pyval \<times> pyrecord list) list"

text \<open>\<^verbatim>\<open>HealthDataParser\<close>: the full sequence and the type index (a dict, in insertion order).\<close>

record parser =
  records :: "pyrecord list"
  record_types :: type_index

definition new_parser :: parser where
  "new_parser = \<lparr> records = [], record_types = [] \<rparr>"

text \<open>\<^verbatim>\<open>record.get('type')\<close> and \<^verbatim>\<open>field in record and record[field]\<close>.\<close>

definition rec_get :: "pyrecord \<Rightarrow> string \<Rightarrow> pyval option" where
  "rec_get r k = map_of r k"

definition has_truthy :: "pyrecord \<Rightarrow> string \<Rightarrow> bool" where
  "has_truthy r k = (case rec_get r k of None \<Rightarrow> False | Some v \<Rightarrow> truthy v)"

section \<open>Paths\<close>

type_synonym path = string

definition CACHE_FILENAME :: string where
  "CACHE_FILENAME = ''health_cache.pkl''"

definition DASHBOARD_CACHE_FILENAME :: string where
  "DASHBOARD_CACHE_FILENAME = ''dashboard_cache.pkl''"

definition CACHE_VERSION :: int where
  "CACHE_VERSION = 1"

definition MEMORY_CACHE_LIMIT :: nat where
  "MEMORY_CACHE_LIMIT = 1"

text \<open>The two accepted export names; the second is the UTF-8 encoding of the Chinese name.\<close>

definition export_xml :: string where
  "export_xml = ''export.xml''"

definition shuchu_xml :: string where
  "shuchu_xml = [CHR 0xE8, CHR 0xBC, CHR 0xB8, CHR 0xE5, CHR 0x87, CHR 0xBA] @ ''.xml''"

text \<open>\<^verbatim>\<open>os.path.join\<close> of two components, \<^verbatim>\<open>os.path.dirname\<close> and \<^verbatim>\<open>os.path.basename\<close> (POSIX).\<close>

definition path_join :: "path \<Rightarrow> path \<Rightarrow> path" where
  "path_join a b =
     (if b \<noteq> [] \<and> hd b = CHR ''/'' then b
      else if a = [] \<or> last a = CHR ''/'' then a @ b
      else a @ ''/'' @ b)"


definition dirname :: "path \<Rightarrow> path" where
  "dirname p =
     (let head = rev (dropWhile (\<lambda>c. c \<noteq> CHR ''/'') (rev p)) in
      if head \<noteq> [] \<and> (\<exists>c \<in> set head. c \<noteq> CHR ''/'')
      then rev (dropWhile (\<lambda>c. c = CHR ''/'') (rev head))
      else head)"

section \<open>The file system and the source stamp\<close>

record stat_info =
  st_mtime :: int
  st_size :: nat

datatype stamp =
    DirStamp path int
  | FileStamp path int nat

text \<open>
  A cache payload is a dict; a key that is absent is \<open>None\<close>. The first four keys are
  written by the record-store cache, the last three by the dashboard cache.
\<close>

record payload =
  cache_version :: "int option"
  source_stamp :: "stamp option"
  pl_records :: "pyrecord list option"
  pl_record_types :: "type_index option"
  pl_stats :: "pyval option"
  pl_dashboard_chart :: "pyval option"
  pl_data_types :: "pyval option"

text \<open>What \<^verbatim>\<open>open\<close> and \<^verbatim>\<open>pickle.load\<close> find in a file.\<close>

datatype disk_file =
    Unreadable
  | NotADict
  | Pickled payload

text \<open>What can go wrong while a cache file is written.\<close>

datatype io_fault = NoFault | OpenFails | DumpFails | ReplaceFails

text \<open>What \<^verbatim>\<open>ET.iterparse\<close> yields for a file: its end events, each with the read offset
  \<^verbatim>\<open>xml_file.tell()\<close> at that moment, and whether a parse error follows them.\<close>

record xml_elem =
  tag :: string
  attrib :: "(string \<times> string) list"
  tell :: nat

datatype xml_file =
    XmlUnopenable
  | XmlDoc "xml_elem list" bool

datatype json_file =
    JsonBad
  | JsonData pyval

text \<open>What \<^verbatim>\<open>pd.read_csv\<close> and \<^verbatim>\<open>df.to_dict('records')\<close> return.\<close>

datatype csv_file =
    CsvBad
  | CsvTable "string list" "pyrecord list"

text \<open>
  The world outside the parser: the operating system's answers (\<open>stat\<close> is \<open>None\<close> where
  \<^verbatim>\<open>os.stat\<close> raises \<^verbatim>\<open>OSError\<close>; \<open>glob w d pat\<close> is
  \<^verbatim>\<open>glob.glob(os.path.join(d, "**", pat), recursive=True)\<close>), the files' contents, the
  cache files, the current time, and the module-level memory cache. A path is a string, and
  every file and directory has one path. The time is that of one run: the calls do not
  move it.
\<close>

record world =
  isdir :: "path \<Rightarrow> bool"
  stat :: "path \<Rightarrow> stat_info option"
  glob :: "path \<Rightarrow> string \<Rightarrow> path list"
  xml_content :: "path \<Rightarrow> xml_file"
  json_content :: "path \<Rightarrow> json_file"
  csv_content :: "path \<Rightarrow> csv_file"
  cache_files :: "path \<Rightarrow> disk_file option"
  fault :: io_fault
  remove_fails :: bool
  clock :: int
  MEMORY_CACHE :: "path \<Rightarrow> payload option"
  MEMORY_CACHE_ORDER :: "path list"

text \<open>\<^verbatim>\<open>_cache_path_for_source\<close>, of the parser and of the dashboard cache.\<close>

definition cache_path_for_source :: "world \<Rightarrow> path \<Rightarrow> path" where
  "cache_path_for_source w source_path =
     (if isdir w source_path then path_join source_path CACHE_FILENAME
      else path_join (dirname source_path) CACHE_FILENAME)"

definition dashboard_cache_path_for_source :: "world \<Rightarrow> path \<Rightarrow> path" where
  "dashboard_cache_path_for_source w source_path =
     (if isdir w source_path then path_join source_path DASHBOARD_CACHE_FILENAME
      else path_join (dirname source_path) DASHBOARD_CACHE_FILENAME)"

text \<open>
  \<^verbatim>\<open>HealthDataParser._get_source_stamp\<close>. The outer \<open>option\<close> is the recursion (a match of
  the glob can itself be a directory); the inner one is Python's \<^verbatim>\<open>None\<close>, returned when
  \<^verbatim>\<open>os.stat\<close> raises.
\<close>

partial_function (option) get_source_stamp :: "world \<Rightarrow> path \<Rightarrow> stamp option option" where
  "get_source_stamp w source_path =
     (if isdir w source_path then
        (case glob w source_path export_xml @ glob w source_path shuchu_xml of
           x # xs \<Rightarrow> get_source_stamp w x
         | [] \<Rightarrow>
            (case stat w source_path of
               None \<Rightarrow> Some None
             | Some stat_info \<Rightarrow> Some (Some (DirStamp source_path (st_mtime stat_info)))))
      else
        (case stat w source_path of
           None \<Rightarrow> Some None
         | Some stat_info \<Rightarrow>
             Some (Some (FileStamp source_path (st_mtime stat_info) (st_size stat_info)))))"

text \<open>\<^verbatim>\<open>dashboard_cache._get_source_stamp\<close>.\<close>

partial_function (option) dashboard_get_source_stamp :: "world \<Rightarrow> path \<Rightarrow> stamp option option" where
  "dashboard_get_source_stamp w source_path =
     (if isdir w source_path then
        (case glob w source_path export_xml of
           x # xs \<Rightarrow> dashboard_get_source_stamp w x
         | [] \<Rightarrow>
            (case stat w source_path of
               None \<Rightarrow> Some None
             | Some stat_info \<Rightarrow> Some (Some (DirStamp source_path (st_mtime stat_info)))))
      else
        (case stat w source_path of
           None \<Rightarrow> Some None
         | Some stat_info \<Rightarrow>
             Some (Some (FileStamp source_path (st_mtime stat_info) (st_size stat_info)))))"

section \<open>The two-tier cache\<close>

text \<open>
  \<^verbatim>\<open>_store_memory_cache\<close>: the \<^verbatim>\<open>while\<close> loop pops the oldest paths until at most
  \<open>MEMORY_CACHE_LIMIT\<close> remain, and never drops the entry just stored.
\<close>

fun evict :: "path \<Rightarrow> path list \<Rightarrow> (path \<Rightarrow> payload option)
                \<Rightarrow> path list \<times> (path \<Rightarrow> payload option)" where
  "evict cache_path [] mc = ([], mc)"
| "evict cache_path (old_path # rest) mc =
     (if length (old_path # rest) > MEMORY_CACHE_LIMIT
      then evict cache_path rest (if old_path \<noteq> cache_path then mc(old_path := None) else mc)
      else (old_path # rest, mc))"

definition store_memory_cache :: "path \<Rightarrow> payload \<Rightarrow> world \<Rightarrow> world" where
  "store_memory_cache cache_path pl w =
     (case evict cache_path
             (remove1 cache_path (MEMORY_CACHE_ORDER w) @ [cache_path])
             ((MEMORY_CACHE w)(cache_path \<mapsto> pl)) of
        (order', mc') \<Rightarrow> w\<lparr>MEMORY_CACHE := mc', MEMORY_CACHE_ORDER := order'\<rparr>)"

text \<open>\<^verbatim>\<open>if memory_payload:\<close> holds for a dict with at least one key.\<close>

definition payload_truthy :: "payload \<Rightarrow> bool" where
  "payload_truthy pl =
     (cache_version pl \<noteq> None \<or> source_stamp pl \<noteq> None \<or> pl_records pl \<noteq> None \<or>
      pl_record_types pl \<noteq> None \<or> pl_stats pl \<noteq> None \<or> pl_dashboard_chart pl \<noteq> None \<or>
      pl_data_types pl \<noteq> None)"

text \<open>The assignments \<^verbatim>\<open>self.records = payload.get("records", [])\<close> and
  \<^verbatim>\<open>self.record_types = payload.get("record_types", {})\<close>.\<close>

definition use_payload :: "payload \<Rightarrow> parser \<Rightarrow> parser" where
  "use_payload pl p =
     p\<lparr>records := (case pl_records pl of None \<Rightarrow> [] | Some rs \<Rightarrow> rs),
       record_types := (case pl_record_types pl of None \<Rightarrow> [] | Some ix \<Rightarrow> ix)\<rparr>"

text \<open>
  \<^verbatim>\<open>HealthDataParser._load_cache\<close>: the returned flag, the parser and the world afterwards.
  The result is \<open>None\<close> only where the stamp computation does not return.
\<close>

definition load_cache :: "world \<Rightarrow> parser \<Rightarrow> path \<Rightarrow> path \<Rightarrow> (bool \<times> parser \<times> world) option" where
  "load_cache w p cache_path source_path =
     (if cache_files w cache_path = None then Some (False, p, w)
      else case get_source_stamp w source_path of
        None \<Rightarrow> None
      | Some None \<Rightarrow> Some (False, p, w)
      | Some (Some stamp) \<Rightarrow>
         (case (case MEMORY_CACHE w cache_path of
                  Some memory_payload \<Rightarrow>
                    if payload_truthy memory_payload \<and>
                       cache_version memory_payload = Some CACHE_VERSION \<and>
                       source_stamp memory_payload = Some stamp
                    then Some memory_payload else None
                | None \<Rightarrow> None) of
            Some memory_payload \<Rightarrow>
              Some (records (use_payload memory_payload p) \<noteq> [], use_payload memory_payload p, w)
          | None \<Rightarrow>
             (case cache_files w cache_path of
                Some (Pickled pl) \<Rightarrow>
                  if cache_version pl \<noteq> Some CACHE_VERSION then Some (False, p, w)
                  else if source_stamp pl \<noteq> Some stamp then Some (False, p, w)
                  else Some (records (use_payload pl p) \<noteq> [], use_payload pl p,
                             store_memory_cache cache_path pl w)
              | _ \<Rightarrow> Some (False, p, w))))"

text \<open>
  What the operating system does to a directory when an entry of it is created, renamed
  or removed: its modification time becomes the current time. The cache files themselves
  are kept apart from \<open>stat\<close>: they are found by their contents, and no source is one.
\<close>

definition touch :: "path \<Rightarrow> world \<Rightarrow> world" where
  "touch d w =
     (if isdir w d
      then w\<lparr>stat := (stat w)(d := map_option (\<lambda>stat_info. stat_info\<lparr>st_mtime := clock w\<rparr>) (stat w d))\<rparr>
      else w)"

text \<open>\<^verbatim>\<open>open(path, 'wb')\<close> followed by a write: the file is created, or truncated if it is there.\<close>

definition file_create :: "path \<Rightarrow> disk_file \<Rightarrow> world \<Rightarrow> world" where
  "file_create file_path content w =
     (if cache_files w file_path = None
      then touch (dirname file_path) (w\<lparr>cache_files := (cache_files w)(file_path \<mapsto> content)\<rparr>)
      else w\<lparr>cache_files := (cache_files w)(file_path \<mapsto> content)\<rparr>)"

text \<open>\<^verbatim>\<open>os.replace(src, dst)\<close> and \<^verbatim>\<open>os.remove(path)\<close>, where they succeed.\<close>

definition file_replace :: "path \<Rightarrow> path \<Rightarrow> world \<Rightarrow> world" where
  "file_replace src dst w =
     touch (dirname dst) (touch (dirname src)
       (w\<lparr>cache_files := (cache_files w)(dst := cache_files w src, src := None)\<rparr>))"

definition file_remove :: "path \<Rightarrow> world \<Rightarrow> world" where
  "file_remove file_path w =
     touch (dirname file_path) (w\<lparr>cache_files := (cache_files w)(file_path := None)\<rparr>)"

text \<open>The handler of both save functions: \<^verbatim>\<open>os.remove(tmp_path)\<close> if the file exists, an
  \<^verbatim>\<open>OSError\<close> of the removal being swallowed.\<close>

definition remove_tmp :: "path \<Rightarrow> world \<Rightarrow> world" where
  "remove_tmp tmp_path w =
     (if cache_files w tmp_path \<noteq> None \<and> \<not> remove_fails w
      then file_remove tmp_path w
      else w)"

text \<open>
  The body of the \<^verbatim>\<open>try\<close> of both save functions up to \<^verbatim>\<open>os.replace\<close>: open the temporary
  file, dump the payload, rename. The flag tells whether all three went through; a failed
  dump leaves a partial temporary file behind, a failed rename a complete one.
\<close>

definition write_and_replace :: "path \<Rightarrow> path \<Rightarrow> payload \<Rightarrow> world \<Rightarrow> bool \<times> world" where
  "write_and_replace tmp_path cache_path pl w =
     (case fault w of
        OpenFails \<Rightarrow> (False, w)
      | DumpFails \<Rightarrow> (False, file_create tmp_path Unreadable w)
      | ReplaceFails \<Rightarrow> (False, file_create tmp_path (Pickled pl) w)
      | NoFault \<Rightarrow> (True, file_replace tmp_path cache_path (file_create tmp_path (Pickled pl) w)))"

text \<open>The payload dicts built by the two save functions.\<close>

definition store_payload :: "stamp \<Rightarrow> parser \<Rightarrow> payload" where
  "store_payload stamp p =
     \<lparr> cache_version = Some CACHE_VERSION, source_stamp = Some stamp,
       pl_records = Some (records p), pl_record_types = Some (record_types p),
       pl_stats = None, pl_dashboard_chart = None, pl_data_types = None \<rparr>"

definition dashboard_payload :: "stamp \<Rightarrow> pyval \<Rightarrow> pyval \<Rightarrow> pyval \<Rightarrow> payload" where
  "dashboard_payload stamp stats dashboard_chart data_types =
     \<lparr> cache_version = Some CACHE_VERSION, source_stamp = Some stamp,
       pl_records = None, pl_record_types = None,
       pl_stats = Some stats, pl_dashboard_chart = Some dashboard_chart,
       pl_data_types = Some data_types \<rparr>"

text \<open>
  \<^verbatim>\<open>HealthDataParser._save_cache\<close>. Python returns \<^verbatim>\<open>None\<close> on every path, so the model
  returns the world and the lines printed.
\<close>

definition save_cache :: "world \<Rightarrow> parser \<Rightarrow> path \<Rightarrow> path \<Rightarrow> (world \<times> string list) option" where
  "save_cache w p cache_path source_path =
     (case get_source_stamp w source_path of
        None \<Rightarrow> None
      | Some None \<Rightarrow> Some (w, [])
      | Some (Some stamp) \<Rightarrow>
          (let pl = store_payload stamp p;
               tmp_path = cache_path @ ''.tmp''
           in case write_and_replace tmp_path cache_path pl w of
                (True, w') \<Rightarrow>
                  Some (store_memory_cache cache_path pl w', [''Saved cache to '' @ cache_path])
              | (False, w') \<Rightarrow>
                  Some (remove_tmp tmp_path w', [''Failed to save cache '' @ cache_path])))"

text \<open>\<^verbatim>\<open>load_dashboard_cache\<close>: the inner \<open>None\<close> is Python's.\<close>

definition load_dashboard_cache :: "world \<Rightarrow> path \<Rightarrow> payload option option" where
  "load_dashboard_cache w source_path =
     (let cache_path = dashboard_cache_path_for_source w source_path in
      if cache_files w cache_path = None then Some None
      else case dashboard_get_source_stamp w source_path of
        None \<Rightarrow> None
      | Some None \<Rightarrow> Some None
      | Some (Some stamp) \<Rightarrow>
         (case cache_files w cache_path of
            Some (Pickled pl) \<Rightarrow>
              if cache_version pl \<noteq> Some CACHE_VERSION then Some None
              else if source_stamp pl \<noteq> Some stamp then Some None
              else Some (Some pl)
          | _ \<Rightarrow> Some None))"

text \<open>\<^verbatim>\<open>save_dashboard_cache\<close>: the returned flag and the world afterwards.\<close>

definition save_dashboard_cache ::
  "world \<Rightarrow> path \<Rightarrow> pyval \<Rightarrow> pyval \<Rightarrow> pyval \<Rightarrow> (bool \<times> world) option" where
  "save_dashboard_cache w source_path stats dashboard_chart data_types =
     (case dashboard_get_source_stamp w source_path of
        None \<Rightarrow> None
      | Some None \<Rightarrow> Some (False, w)
      | Some (Some stamp) \<Rightarrow>
          (let cache_path = dashboard_cache_path_for_source w source_path;
               pl = dashboard_payload stamp stats dashboard_chart data_types;
               tmp_path = cache_path @ ''.tmp''
           in case write_and_replace tmp_path cache_path pl w of
                (True, w') \<Rightarrow> Some (True, w')
              | (False, w') \<Rightarrow> Some (False, remove_tmp tmp_path w')))"

section \<open>Ingestion\<close>

text \<open>
  The lines shared by the three readers:
  \<^verbatim>\<open>record_type = record.get('type')\<close>, and if it is truthy, create the bucket if the key
  is new and append the record to it. The result is \<open>None\<close> where the key is unhashable
  and Python raises \<^verbatim>\<open>TypeError\<close>.
\<close>

fun bucket_append :: "pyval \<Rightarrow> pyrecord \<Rightarrow> type_index \<Rightarrow> type_index" where
  "bucket_append k r [] = [(k, [r])]"
| "bucket_append k r ((k', rs) # ix) =
     (if k' = k then (k', rs @ [r]) # ix else (k', rs) # bucket_append k r ix)"

definition index_record :: "pyrecord \<Rightarrow> type_index \<Rightarrow> type_index option" where
  "index_record r ix =
     (case rec_get r ''type'' of
        None \<Rightarrow> Some ix
      | Some record_type \<Rightarrow>
          if truthy record_type
          then (case dict_key record_type of
                  None \<Rightarrow> None
                | Some k \<Rightarrow> Some (bucket_append k r ix))
          else Some ix)"

text \<open>\<^verbatim>\<open>record = elem.attrib\<close>: a dict of strings.\<close>

definition attrib_record :: "xml_elem \<Rightarrow> pyrecord" where
  "attrib_record elem = map (\<lambda>(k, v). (k, PStr v)) (attrib elem)"

text \<open>
  \<^verbatim>\<open>int((current_pos / total_size) * 90) + 5\<close>, clamped by \<^verbatim>\<open>max(5, min(95, progress))\<close>. The
  quotient is taken exactly.
\<close>

definition progress_of :: "nat \<Rightarrow> nat \<Rightarrow> int" where
  "progress_of current_pos total_size =
     max 5 (min 95 ((int current_pos * 90) div int total_size + 5))"

text \<open>
  The loop of \<^verbatim>\<open>parse_xml\<close> over the end events. \<open>cb\<close> tells whether a progress callback was
  given. The result is the parser, the percents passed to the callback in call order, and
  whether the loop ran through without an exception. \<^verbatim>\<open>elem.clear()\<close> releases the element;
  the record, which is the element's attribute dict, keeps its entries (as it does with the
  accelerated ElementTree of CPython).
\<close>

fun xml_loop :: "bool \<Rightarrow> nat option \<Rightarrow> xml_elem list \<Rightarrow> parser \<Rightarrow> int \<Rightarrow> nat
                   \<Rightarrow> parser \<times> int list \<times> bool" where
  "xml_loop cb total_size [] p last_progress record_count = (p, [], True)"
| "xml_loop cb total_size (elem # elems) p last_progress record_count =
     (if tag elem = ''Record'' then
        (case index_record (attrib_record elem) (record_types p) of
           None \<Rightarrow> (p\<lparr>records := records p @ [attrib_record elem]\<rparr>, [], False)
         | Some ix \<Rightarrow>
            (if cb \<and> total_size \<noteq> None \<and> total_size \<noteq> Some 0 \<and> (record_count + 1) mod 5000 = 0
             then
               (if progress_of (tell elem) (the total_size) \<noteq> last_progress
                then
                  (case xml_loop cb total_size elems
                          (p\<lparr>records := records p @ [attrib_record elem], record_types := ix\<rparr>)
                          (progress_of (tell elem) (the total_size)) (record_count + 1) of
                     (q, out, ok) \<Rightarrow> (q, progress_of (tell elem) (the total_size) # out, ok))
                else
                  xml_loop cb total_size elems
                    (p\<lparr>records := records p @ [attrib_record elem], record_types := ix\<rparr>)
                    last_progress (record_count + 1))
             else
               xml_loop cb total_size elems
                 (p\<lparr>records := records p @ [attrib_record elem], record_types := ix\<rparr>)
                 last_progress (record_count + 1)))
      else xml_loop cb total_size elems p last_progress record_count)"

text \<open>
  \<^verbatim>\<open>parse_xml\<close>: the returned flag, the parser, the world and the percents passed to the
  callback. An exception anywhere in the body (the file cannot be opened, the XML is
  malformed) returns \<^verbatim>\<open>False\<close> and keeps what was appended so far.
\<close>

definition parse_xml :: "world \<Rightarrow> parser \<Rightarrow> path \<Rightarrow> bool
                           \<Rightarrow> (bool \<times> parser \<times> world \<times> int list) option" where
  "parse_xml w p xml_path cb =
     (case load_cache w p (cache_path_for_source w xml_path) xml_path of
        None \<Rightarrow> None
      | Some (True, p', w') \<Rightarrow> Some (True, p', w', if cb then [95] else [])
      | Some (False, p', w') \<Rightarrow>
         (case xml_content w' xml_path of
            XmlUnopenable \<Rightarrow> Some (False, p', w', [])
          | XmlDoc elems parse_error \<Rightarrow>
             (case xml_loop cb (map_option st_size (stat w' xml_path)) elems p' (- 1) 0 of
                (p'', out, ok) \<Rightarrow>
                  if \<not> ok \<or> parse_error then Some (False, p'', w', out)
                  else
                    (case save_cache w' p'' (cache_path_for_source w xml_path) xml_path of
                       None \<Rightarrow> None
                     | Some (w'', msgs) \<Rightarrow> Some (records p'' \<noteq> [], p'', w'', out)))))"

text \<open>
  \<^verbatim>\<open>parse_json_files\<close>. The inner loop runs over the entries of one file; an exception
  ends the file (the \<^verbatim>\<open>except\<close> of the file's \<^verbatim>\<open>try\<close>) and keeps what was appended.
\<close>

fun json_records_loop :: "pyval list \<Rightarrow> parser \<Rightarrow> parser" where
  "json_records_loop [] p = p"
| "json_records_loop (PDict r # rest) p =
     (if rec_get r ''type'' \<noteq> None then
        (case index_record r (record_types p) of
           None \<Rightarrow> p\<lparr>records := records p @ [r]\<rparr>
         | Some ix \<Rightarrow> json_records_loop rest (p\<lparr>records := records p @ [r], record_types := ix\<rparr>))
      else json_records_loop rest p)"
| "json_records_loop (v # rest) p = json_records_loop rest p"

fun json_files_loop :: "world \<Rightarrow> path list \<Rightarrow> parser \<Rightarrow> parser" where
  "json_files_loop w [] p = p"
| "json_files_loop w (json_file # rest) p =
     (case json_content w json_file of
        JsonData (PList data) \<Rightarrow> json_files_loop w rest (json_records_loop data p)
      | _ \<Rightarrow> json_files_loop w rest p)"

definition parse_json_files :: "world \<Rightarrow> parser \<Rightarrow> path \<Rightarrow> bool \<times> parser" where
  "parse_json_files w p directory_path =
     (let p' = json_files_loop w (glob w directory_path ''*.json'') p
      in (records p' \<noteq> [], p'))"

text \<open>\<^verbatim>\<open>parse_csv_files\<close>, built the same way. The rows are those of \<^verbatim>\<open>df.to_dict('records')\<close>:
  every row has every column, an empty cell as \<^verbatim>\<open>nan\<close>.\<close>

definition health_data_columns :: "string list" where
  "health_data_columns = [''type'', ''startDate'', ''endDate'', ''value'']"

fun csv_records_loop :: "pyrecord list \<Rightarrow> parser \<Rightarrow> parser" where
  "csv_records_loop [] p = p"
| "csv_records_loop (r # rest) p =
     (if rec_get r ''type'' \<noteq> None then
        (case index_record r (record_types p) of
           None \<Rightarrow> p\<lparr>records := records p @ [r]\<rparr>
         | Some ix \<Rightarrow> csv_records_loop rest (p\<lparr>records := records p @ [r], record_types := ix\<rparr>))
      else csv_records_loop rest p)"

fun csv_files_loop :: "world \<Rightarrow> path list \<Rightarrow> parser \<Rightarrow> parser" where
  "csv_files_loop w [] p = p"
| "csv_files_loop w (csv_file # rest) p =
     (case csv_content w csv_file of
        CsvTable columns rows \<Rightarrow>
          if list_ex (\<lambda>col. col \<in> set columns) health_data_columns
          then csv_files_loop w rest (csv_records_loop rows p)
          else csv_files_loop w rest p
      | CsvBad \<Rightarrow> csv_files_loop w rest p)"

definition parse_csv_files :: "world \<Rightarrow> parser \<Rightarrow> path \<Rightarrow> bool \<times> parser" where
  "parse_csv_files w p directory_path =
     (let p' = csv_files_loop w (glob w directory_path ''*.csv'') p
      in (records p' \<noteq> [], p'))"

text \<open>
  \<^verbatim>\<open>parse_directory\<close>. Besides the flag, the parser and the world, the model returns the
  readers that were called, in call order, each with the flag it returned; this list is
  bookkeeping of the model, not state of the program.
\<close>

datatype reader = ReadXml path | ReadJson | ReadCsv






section \<open>Derived metrics\<close>

text \<open>
  What the metric functions take from outside the record store: the date parser (the
  \<^verbatim>\<open>try\<close> body of \<^verbatim>\<open>_safe_date_conversion\<close>, \<open>None\<close> where it raises), the clock read by
  \<^verbatim>\<open>pd.Timestamp.now()\<close>, and Python's \<^verbatim>\<open>float\<close> on a string. The date parser is given the
  current time with the value: \<^verbatim>\<open>pd.to_datetime\<close> reads the clock for strings such as
  \<^verbatim>\<open>now\<close> and \<^verbatim>\<open>today\<close> and for a time of day without a date. A timestamp is a number of
  seconds; its calendar date is the day it falls in. The clock is read once per run. A table
  is a list of rows in the order of the data frame; errors that pandas raises on frames it
  cannot handle (time zones that do not mix) are not part of the model.
\<close>

record env =
  to_datetime :: "int \<Rightarrow> pyval \<Rightarrow> int option"
  now :: int
  str_to_float :: "string \<Rightarrow> real option"

definition date_of :: "int \<Rightarrow> int" where
  "date_of t = t div 86400"

text \<open>\<^verbatim>\<open>float(v)\<close>; \<open>None\<close> where it raises. \<^verbatim>\<open>float\<close> of a \<^verbatim>\<open>nan\<close> is what \<^verbatim>\<open>float('nan')\<close> is.\<close>

fun py_float :: "env \<Rightarrow> pyval \<Rightarrow> real option" where
  "py_float env (PNum x) = Some x"
| "py_float env (PBool b) = Some (if b then 1 else 0)"
| "py_float env (PStr s) = str_to_float env s"
| "py_float env (PNaN i) = str_to_float env ''nan''"
| "py_float env v = None"

definition riqi :: string where
  "riqi = [CHR 0xE6, CHR 0x97, CHR 0xA5, CHR 0xE6, CHR 0x9C, CHR 0x9F]"

definition date_fields :: "string list" where
  "date_fields = [''startDate'', ''endDate'', ''date'', riqi, ''Start'', ''End'']"

definition value_fields :: "string list" where
  "value_fields = [''value'', ''Value'', [CHR 0xE5, CHR 0x80, CHR 0xBC],
                   [CHR 0xE6, CHR 0x95, CHR 0xB0, CHR 0xE5, CHR 0x80, CHR 0xBC]]"

text \<open>The first of the fields that is in the record with a truthy value.\<close>

fun first_field :: "string list \<Rightarrow> pyrecord \<Rightarrow> pyval option" where
  "first_field [] r = None"
| "first_field (field # rest) r =
     (if has_truthy r field then rec_get r field else first_field rest r)"

text \<open>\<^verbatim>\<open>_safe_date_conversion\<close> never raises: where parsing fails it returns the current time.\<close>

definition safe_date_conversion :: "env \<Rightarrow> pyval \<Rightarrow> int" where
  "safe_date_conversion env date_str =
     (case to_datetime env (now env) date_str of Some t \<Rightarrow> t | None \<Rightarrow> now env)"

text \<open>\<^verbatim>\<open>_extract_date\<close>: the loop stops at the first field it converts, and the conversion
  always returns.\<close>

definition extract_date :: "env \<Rightarrow> pyrecord \<Rightarrow> int" where
  "extract_date env r =
     (case first_field date_fields r of
        Some v \<Rightarrow> safe_date_conversion env v
      | None \<Rightarrow> now env)"

text \<open>\<^verbatim>\<open>_extract_value\<close>: the number if \<^verbatim>\<open>float\<close> succeeds, the raw value otherwise.\<close>

definition extract_value :: "env \<Rightarrow> pyrecord \<Rightarrow> pyval option" where
  "extract_value env r =
     (case first_field value_fields r of
        None \<Rightarrow> None
      | Some v \<Rightarrow> (case py_float env v of Some x \<Rightarrow> Some (PNum x) | None \<Rightarrow> Some v))"

definition step_types :: "string list" where
  "step_types = [''HKQuantityTypeIdentifierStepCount'',
                 ''com.apple.health.type.quantity.steps'', ''StepCount'']"

definition hr_types :: "string list" where
  "hr_types = [''HKQuantityTypeIdentifierHeartRate'',
               ''com.apple.health.type.quantity.heartrate'', ''HeartRate'']"

definition sleep_types :: "string list" where
  "sleep_types = [''HKCategoryTypeIdentifierSleepAnalysis'',
                  ''com.apple.health.type.category.sleep'', ''SleepAnalysis'']"

text \<open>The records of the buckets of the given type names, in that order.\<close>

definition records_of_types :: "parser \<Rightarrow> string list \<Rightarrow> pyrecord list" where
  "records_of_types p types =
     concat (map (\<lambda>type_name. case map_of (record_types p) (PStr type_name) of
                                 None \<Rightarrow> [] | Some rs \<Rightarrow> rs) types)"

text \<open>The loop of \<^verbatim>\<open>get_step_count_data\<close> and \<^verbatim>\<open>get_heart_rate_data\<close>: a record gives a row
  if it has a value that \<^verbatim>\<open>float\<close> accepts.\<close>

definition dated_values :: "env \<Rightarrow> pyrecord list \<Rightarrow> (int \<times> real) list" where
  "dated_values env rs =
     List.map_filter
       (\<lambda>r. case extract_value env r of
               None \<Rightarrow> None
             | Some v \<Rightarrow> (case py_float env v of
                            None \<Rightarrow> None
                          | Some x \<Rightarrow> Some (extract_date env r, x))) rs"

definition get_step_count_data :: "env \<Rightarrow> parser \<Rightarrow> (int \<times> real) list" where
  "get_step_count_data env p = sort_key fst (dated_values env (records_of_types p step_types))"

definition get_heart_rate_data :: "env \<Rightarrow> parser \<Rightarrow> (int \<times> real) list" where
  "get_heart_rate_data env p = sort_key fst (dated_values env (records_of_types p hr_types))"

text \<open>\<^verbatim>\<open>groupby(date)\<close>: the dates in ascending order, each once, and the rows of a date.\<close>

definition group_dates :: "(int \<times> 'a) list \<Rightarrow> int list" where
  "group_dates rows = sort (remdups (map fst rows))"

definition rows_on :: "int \<Rightarrow> (int \<times> 'a) list \<Rightarrow> 'a list" where
  "rows_on d rows = map snd (filter (\<lambda>row. fst row = d) rows)"

definition by_date :: "(int \<times> 'a) list \<Rightarrow> (int \<times> 'a) list" where
  "by_date data = map (\<lambda>(t, v). (date_of t, v)) data"

definition get_daily_step_count :: "env \<Rightarrow> parser \<Rightarrow> (int \<times> real) list" where
  "get_daily_step_count env p =
     (let steps_data = by_date (get_step_count_data env p) in
      if steps_data = [] then []
      else map (\<lambda>d. (d, sum_list (rows_on d steps_data))) (group_dates steps_data))"


subsection \<open>Sleep\<close>

record sleep_row =
  row_start :: int
  row_end :: "int option"
  row_duration :: "real option"
  row_value :: "pyval option"

definition sleep_end_date :: "env \<Rightarrow> pyrecord \<Rightarrow> int option" where
  "sleep_end_date env r =
     (if has_truthy r ''endDate'' then Some (safe_date_conversion env (the (rec_get r ''endDate'')))
      else if has_truthy r ''End'' then Some (safe_date_conversion env (the (rec_get r ''End'')))
      else None)"

definition sleep_value :: "pyrecord \<Rightarrow> pyval option" where
  "sleep_value r =
     (if has_truthy r ''value'' then rec_get r ''value''
      else if has_truthy r ''Value'' then rec_get r ''Value''
      else None)"

definition hours_between :: "int \<Rightarrow> int \<Rightarrow> real" where
  "hours_between start_date end_date = real_of_int (end_date - start_date) / 3600"

definition sleep_row_of :: "env \<Rightarrow> pyrecord \<Rightarrow> sleep_row option" where
  "sleep_row_of env r =
     (let start_date = extract_date env r;
          end_date = sleep_end_date env r;
          duration = map_option (hours_between start_date) end_date;
          v = sleep_value r
      in if duration \<noteq> None \<or> v \<noteq> None
         then Some \<lparr> row_start = start_date, row_end = end_date,
                     row_duration = duration, row_value = v \<rparr>
         else None)"

definition get_sleep_analysis_data :: "env \<Rightarrow> parser \<Rightarrow> sleep_row list" where
  "get_sleep_analysis_data env p =
     sort_key row_start (List.map_filter (sleep_row_of env) (records_of_types p sleep_types))"

text \<open>\<^verbatim>\<open>str.lower\<close> on the letters A to Z; the bytes of other characters stay.\<close>

definition lower_char :: "char \<Rightarrow> char" where
  "lower_char c =
     (if (65::nat) \<le> of_char c \<and> of_char c \<le> (90::nat) then char_of (of_char c + (32::nat)) else c)"

definition lower :: "string \<Rightarrow> string" where
  "lower s = map lower_char s"

definition sleep_states :: "string list" where
  "sleep_states = [''asleep'', ''inBed'',
                   [CHR 0xE5, CHR 0x85, CHR 0xA5, CHR 0xE7, CHR 0x9D, CHR 0xA1],
                   [CHR 0xE7, CHR 0x9D, CHR 0xA1, CHR 0xE7, CHR 0x9C, CHR 0xA0]]"

text \<open>The mask: a row passes if its value is a string whose lower case is in the
  vocabulary; a value that is no string never passes.\<close>

definition is_sleep_state :: "sleep_row \<Rightarrow> bool" where
  "is_sleep_state row =
     (case row_value row of
        Some (PStr s) \<Rightarrow> lower s \<in> set (map lower sleep_states)
      | _ \<Rightarrow> False)"

text \<open>\<^verbatim>\<open>groupby('date')['duration'].sum()\<close>: a missing duration adds nothing.\<close>

definition sum_durations :: "(int \<times> real option) list \<Rightarrow> (int \<times> real) list" where
  "sum_durations rows =
     map (\<lambda>d. (d, sum_list (map (\<lambda>x. case x of None \<Rightarrow> 0 | Some h \<Rightarrow> h) (rows_on d rows))))
       (group_dates rows)"

definition daily_sleep :: "sleep_row list \<Rightarrow> (int \<times> real) list" where
  "daily_sleep filtered_sleep_data =
     (if \<not> list_all (\<lambda>row. row_duration row = None) filtered_sleep_data
      then sum_durations (map (\<lambda>row. (date_of (row_start row), row_duration row)) filtered_sleep_data)
      else sum_durations
             (map (\<lambda>row. (date_of (row_start row),
                           map_option (hours_between (row_start row)) (row_end row)))
                filtered_sleep_data))"

text \<open>
  \<^verbatim>\<open>get_sleep_duration_daily\<close>. Where no value is a string the \<^verbatim>\<open>.str\<close> accessor raises and
  the handler keeps all rows; the mask is empty then, so the two paths agree.
\<close>

definition get_sleep_duration_daily :: "env \<Rightarrow> parser \<Rightarrow> (int \<times> real) list" where
  "get_sleep_duration_daily env p =
     (let sleep_data = get_sleep_analysis_data env p in
      if sleep_data = [] then []
      else daily_sleep
             (if filter is_sleep_state sleep_data = [] then sleep_data
              else filter is_sleep_state sleep_data))"

subsection \<open>Stress\<close>

text \<open>The sample standard deviation (\<^verbatim>\<open>std\<close>, one degree of freedom less), undefined for
  fewer than two values.\<close>

definition mean :: "real list \<Rightarrow> real" where
  "mean xs = sum_list xs / real (length xs)"

definition std :: "real list \<Rightarrow> real option" where
  "std xs =
     (if length xs < 2 then None
      else Some (sqrt (sum_list (map (\<lambda>x. (x - mean xs)\<^sup>2) xs) / real (length xs - 1))))"

definition fillna0 :: "real option \<Rightarrow> real" where
  "fillna0 x = (case x of None \<Rightarrow> 0 | Some v \<Rightarrow> v)"

definition clip :: "real \<Rightarrow> real \<Rightarrow> real \<Rightarrow> real" where
  "clip x lo hi = min hi (max lo x)"

record stress_row =
  stress_date :: int
  hr_std :: real
  hr_range :: real
  hr_mean :: real
  stress_index :: real

definition stress_row_of :: "int \<Rightarrow> real list \<Rightarrow> stress_row" where
  "stress_row_of d vs =
     \<lparr> stress_date = d,
       hr_std = fillna0 (std vs),
       hr_range = Max (set vs) - Min (set vs),
       hr_mean = mean vs,
       stress_index = clip ((fillna0 (std vs) * 0.6 + (Max (set vs) - Min (set vs)) * 0.4) / 10.0) 1 10 \<rparr>"

definition get_stress_indicators :: "env \<Rightarrow> parser \<Rightarrow> stress_row list" where
  "get_stress_indicators env p =
     (let hr_data = by_date (get_heart_rate_data env p) in
      if hr_data = [] then []
      else map (\<lambda>d. stress_row_of d (rows_on d hr_data)) (group_dates hr_data))"

section \<open>Predicates of the specification\<close>

text \<open>Two worlds with the same files, faults and time; only the caches may differ.\<close>

definition same_files :: "world \<Rightarrow> world \<Rightarrow> bool" where
  "same_files w w' =
     (isdir w' = isdir w \<and> stat w' = stat w \<and> glob w' = glob w \<and>
      xml_content w' = xml_content w \<and> json_content w' = json_content w \<and>
      csv_content w' = csv_content w \<and> fault w' = fault w \<and> remove_fails w' = remove_fails w \<and>
      clock w' = clock w)"

text \<open>
  The same, but for the modification time of the directory \<open>d\<close>, which may have become the
  current time: an entry of \<open>d\<close> was created, renamed or removed.
\<close>

definition same_files_but_mtime :: "path \<Rightarrow> world \<Rightarrow> world \<Rightarrow> bool" where
  "same_files_but_mtime d w w' = (same_files w w' \<or> same_files (touch d w) w')"

text \<open>
  The two outcomes of writing a cache file: the payload stands at the cache path and no
  temporary file is left; or every file but the temporary one is as before, and the
  temporary one is gone unless its removal failed.
\<close>

definition written :: "world \<Rightarrow> world \<Rightarrow> path \<Rightarrow> payload \<Rightarrow> bool" where
  "written w w' cache_path pl =
     (cache_files w' = (cache_files w)(cache_path @ ''.tmp'' := None, cache_path \<mapsto> Pickled pl))"

definition write_failed :: "world \<Rightarrow> world \<Rightarrow> path \<Rightarrow> bool" where
  "write_failed w w' cache_path =
     ((\<forall>q. q \<noteq> cache_path @ ''.tmp'' \<longrightarrow> cache_files w' q = cache_files w q) \<and>
      (\<not> remove_fails w \<longrightarrow> cache_files w' (cache_path @ ''.tmp'') = None))"

text \<open>\<^verbatim>\<open>_save_cache\<close> returns \<^verbatim>\<open>None\<close> on every path; what it can report, it prints.\<close>

definition reports_failure :: "string list \<Rightarrow> bool" where
  "reports_failure msgs = list_ex (\<lambda>m. take 6 m = ''Failed'') msgs"

text \<open>
  A record without a type: it has no \<^verbatim>\<open>type\<close> field, or the field holds nothing (\<^verbatim>\<open>None\<close>,
  an empty value, or the \<^verbatim>\<open>nan\<close> of an empty cell). And a record that is in some bucket of
  the type index.
\<close>

definition untyped :: "pyrecord \<Rightarrow> bool" where
  "untyped r =
     (case rec_get r ''type'' of
        None \<Rightarrow> True
      | Some (PNaN i) \<Rightarrow> True
      | Some v \<Rightarrow> \<not> truthy v)"

definition indexed :: "parser \<Rightarrow> pyrecord \<Rightarrow> bool" where
  "indexed p r = list_ex (\<lambda>(k, rs). r \<in> set rs) (record_types p)"


text \<open>
  The protocol of the readers after a cache miss, as a condition on the list of calls: the
  XML reader is called on the export files in their order, up to and including the first
  one on which it returns \<^verbatim>\<open>True\<close>, and nothing is called after that; if it returned \<^verbatim>\<open>False\<close>
  on every export file (or there is none), the JSON reader is called; if that returned
  \<^verbatim>\<open>False\<close>, the CSV reader is called; and these are all the calls.
\<close>

fun fallback_order :: "path list \<Rightarrow> (reader \<times> bool) list \<Rightarrow> bool" where
  "fallback_order (f # fs) ((ReadXml g, b) # calls) =
     (g = f \<and> (if b then calls = [] else fallback_order fs calls))"
| "fallback_order [] [(ReadJson, True)] = True"
| "fallback_order [] [(ReadJson, False), (ReadCsv, b)] = True"
| "fallback_order fs calls = False"

text \<open>The hours of sleep of a date: the durations of all rows that start on it, a row without
  a duration adding nothing.\<close>

definition total_hours :: "sleep_row list \<Rightarrow> int \<Rightarrow> real" where
  "total_hours rows d =
     sum_list (map (\<lambda>row. case row_duration row of None \<Rightarrow> 0 | Some h \<Rightarrow> h)
                 (filter (\<lambda>row. date_of (row_start row) = d) rows))"

text \<open>
  The heart-rate values of a calendar date, and the index of the specification before
  clipping: the sample standard deviation, read as zero where it is undefined (fewer than
  two values), times 0.6, plus the range times 0.4, over 10.
\<close>

definition day_values :: "(int \<times> real) list \<Rightarrow> int \<Rightarrow> real list" where
  "day_values data d = map snd (filter (\<lambda>(t, v). date_of t = d) data)"

definition sample_std :: "real list \<Rightarrow> real" where
  "sample_std vs =
     sqrt (sum_list (map (\<lambda>x. (x - sum_list vs / real (length vs))\<^sup>2) vs) / real (length vs - 1))"

definition raw_index :: "real list \<Rightarrow> real" where
  "raw_index vs =
     ((if length vs < 2 then 0 else sample_std vs) * 0.6 + (Max (set vs) - Min (set vs)) * 0.4) / 10"

text \<open>
  A date that reads the same at the times \<open>t\<close> and \<open>t'\<close>: it parses, and to one timestamp. A
  record whose dates are fixed: its first non-empty date field is there and is such a
  date, and so is the end date the sleep table reads. No date of such a record comes from
  the clock.
\<close>

definition date_fixed :: "env \<Rightarrow> int \<Rightarrow> int \<Rightarrow> pyval \<Rightarrow> bool" where
  "date_fixed env t t' v = (to_datetime env t v \<noteq> None \<and> to_datetime env t' v = to_datetime env t v)"

definition first_date_fixed :: "env \<Rightarrow> int \<Rightarrow> int \<Rightarrow> pyrecord \<Rightarrow> bool" where
  "first_date_fixed env t t' r =
     (case first_field date_fields r of None \<Rightarrow> False | Some v \<Rightarrow> date_fixed env t t' v)"

definition end_date_fixed :: "env \<Rightarrow> int \<Rightarrow> int \<Rightarrow> pyrecord \<Rightarrow> bool" where
  "end_date_fixed env t t' r =
     (if has_truthy r ''endDate'' then date_fixed env t t' (the (rec_get r ''endDate''))
      else if has_truthy r ''End'' then date_fixed env t t' (the (rec_get r ''End''))
      else True)"

definition dates_fixed :: "env \<Rightarrow> int \<Rightarrow> int \<Rightarrow> parser \<Rightarrow> bool" where
  "dates_fixed env t t' p =
     list_all (\<lambda>r. first_date_fixed env t t' r \<and> end_date_fixed env t t' r)
       (records_of_types p (step_types @ hr_types @ sleep_types))"

section \<open>Concrete inputs\<close>

text \<open>A directory \<^verbatim>\<open>health\<close> whose only export carries the Chinese file name.\<close>

definition zh_world :: world where
  "zh_world = \<lparr>
     isdir = (\<lambda>p. p = ''health''),
     stat = (\<lambda>p. if p = ''health'' then Some \<lparr> st_mtime = 100, st_size = 4096 \<rparr>
                else if p = ''health/'' @ shuchu_xml then Some \<lparr> st_mtime = 200, st_size = 5000 \<rparr>
                else None),
     glob = (\<lambda>d pat. if d = ''health'' \<and> pat = shuchu_xml then [''health/'' @ shuchu_xml] else []),
     xml_content = (\<lambda>p. XmlUnopenable),
     json_content = (\<lambda>p. JsonBad),
     csv_content = (\<lambda>p. CsvBad),
     cache_files = (\<lambda>p. None),
     fault = NoFault,
     remove_fails = False,
     clock = 1700003600,
     MEMORY_CACHE = (\<lambda>p. None),
     MEMORY_CACHE_ORDER = [] \<rparr>"

text \<open>A directory \<^verbatim>\<open>data\<close> with an export of three heart-rate records and one step record,
  no cache file yet.\<close>

definition hr_elem :: "string \<Rightarrow> string \<Rightarrow> nat \<Rightarrow> xml_elem" where
  "hr_elem d v pos =
     \<lparr> tag = ''Record'',
       attrib = [(''type'', ''HeartRate''), (''startDate'', d), (''value'', v)],
       tell = pos \<rparr>"

definition demo_elems :: "xml_elem list" where
  "demo_elems =
     [hr_elem ''2024-01-01 08:00:00'' ''60'' 100,
      hr_elem ''2024-01-01 12:00:00'' ''80'' 200,
      \<lparr> tag = ''Workout'', attrib = [(''duration'', ''30'')], tell = 300 \<rparr>,
      hr_elem ''2024-01-01 20:00:00'' ''100'' 400,
      \<lparr> tag = ''Record'',
        attrib = [(''type'', ''StepCount''), (''startDate'', ''2024-01-02 09:00:00''),
                  (''value'', ''200'')],
        tell = 500 \<rparr>]"

definition file_world :: world where
  "file_world = \<lparr>
     isdir = (\<lambda>p. p = ''data''),
     stat = (\<lambda>p. if p = ''data/export.xml'' then Some \<lparr> st_mtime = 1700000000, st_size = 600 \<rparr>
                else if p = ''data'' then Some \<lparr> st_mtime = 1700000001, st_size = 4096 \<rparr>
                else None),
     glob = (\<lambda>d pat. if d = ''data'' \<and> (pat = export_xml \<or> pat = ''*.xml'')
                      then [''data/export.xml'']
                      else if d = ''data'' \<and> pat = ''*.json'' then [''data/extra.json'']
                      else []),
     xml_content = (\<lambda>p. if p = ''data/export.xml'' then XmlDoc demo_elems False else XmlUnopenable),
     json_content = (\<lambda>p. if p = ''data/extra.json''
                          then JsonData (PList [PDict [(''type'', PStr ''Other''), (''value'', PNum 1)]])
                          else JsonBad),
     csv_content = (\<lambda>p. CsvBad),
     cache_files = (\<lambda>p. None),
     fault = NoFault,
     remove_fails = False,
     clock = 1700003600,
     MEMORY_CACHE = (\<lambda>p. None),
     MEMORY_CACHE_ORDER = [] \<rparr>"

definition demo_parser :: parser where
  "demo_parser =
     \<lparr> records = map attrib_record (filter (\<lambda>e. tag e = ''Record'') demo_elems),
       record_types =
         [(PStr ''HeartRate'',
             [attrib_record (hr_elem ''2024-01-01 08:00:00'' ''60'' 100),
              attrib_record (hr_elem ''2024-01-01 12:00:00'' ''80'' 200),
              attrib_record (hr_elem ''2024-01-01 20:00:00'' ''100'' 400)]),
          (PStr ''StepCount'',
             [[(''type'', PStr ''StepCount''), (''startDate'', PStr ''2024-01-02 09:00:00''),
               (''value'', PStr ''200'')]])] \<rparr>"


text \<open>The same directory with a cache file that matches the export and holds no records.\<close>

definition empty_payload :: payload where
  "empty_payload =
     \<lparr> cache_version = Some 1,
       source_stamp = Some (FileStamp ''data/export.xml'' 1700000000 600),
       pl_records = Some [], pl_record_types = Some [],
       pl_stats = None, pl_dashboard_chart = None, pl_data_types = None \<rparr>"

definition empty_cache_world :: world where
  "empty_cache_world =
     file_world\<lparr>cache_files := (\<lambda>p. if p = ''data/health_cache.pkl''
                                       then Some (Pickled empty_payload) else None)\<rparr>"

text \<open>The same directory when the export cannot be read by \<^verbatim>\<open>os.stat\<close>, when the rename
  of the temporary cache file fails, and when the export breaks off after its last record.\<close>

definition missing_world :: world where
  "missing_world = file_world\<lparr>stat := (\<lambda>p. None)\<rparr>"

definition faulty_world :: world where
  "faulty_world = file_world\<lparr>fault := ReplaceFails\<rparr>"


text \<open>
  Three directories without an export file: \<^verbatim>\<open>notes\<close> with a JSON file of one step record,
  \<^verbatim>\<open>lists\<close> with a JSON file whose first record has a list as its type, and \<^verbatim>\<open>sheets\<close> with
  a CSV file whose first row has an empty type cell. The directories were last changed an
  hour before the time of the run.
\<close>

definition step_row :: pyrecord where
  "step_row = [(''type'', PStr ''StepCount''), (''startDate'', PStr ''2024-01-02 09:00:00''),
               (''value'', PNum 200)]"

definition list_typed_row :: pyrecord where
  "list_typed_row = [(''type'', PList [PStr ''StepCount'']), (''value'', PNum 10)]"

definition blank_row :: pyrecord where
  "blank_row = [(''type'', PNaN 0), (''startDate'', PStr ''2024-01-01 08:00:00''),
                (''value'', PNum 60)]"

definition notes_world :: world where
  "notes_world = \<lparr>
     isdir = (\<lambda>p. p = ''notes'' \<or> p = ''lists'' \<or> p = ''sheets''),
     stat = (\<lambda>p. if p = ''notes'' \<or> p = ''lists'' \<or> p = ''sheets''
                then Some \<lparr> st_mtime = 1700000000, st_size = 4096 \<rparr>
                else if p = ''notes/steps.json'' \<or> p = ''lists/mixed.json'' \<or> p = ''sheets/day.csv''
                then Some \<lparr> st_mtime = 1600000000, st_size = 80 \<rparr>
                else None),
     glob = (\<lambda>d pat. if d = ''notes'' \<and> pat = ''*.json'' then [''notes/steps.json'']
                      else if d = ''lists'' \<and> pat = ''*.json'' then [''lists/mixed.json'']
                      else if d = ''sheets'' \<and> pat = ''*.csv'' then [''sheets/day.csv'']
                      else []),
     xml_content = (\<lambda>p. XmlUnopenable),
     json_content = (\<lambda>p. if p = ''notes/steps.json'' then JsonData (PList [PDict step_row])
                          else if p = ''lists/mixed.json''
                          then JsonData (PList [PDict list_typed_row, PDict step_row])
                          else JsonBad),
     csv_content = (\<lambda>p. if p = ''sheets/day.csv''
                         then CsvTable [''type'', ''startDate'', ''value''] [blank_row, step_row]
                         else CsvBad),
     cache_files = (\<lambda>p. None),
     fault = NoFault,
     remove_fails = False,
     clock = 1700003600,
     MEMORY_CACHE = (\<lambda>p. None),
     MEMORY_CACHE_ORDER = [] \<rparr>"

definition notes_parser :: parser where
  "notes_parser = \<lparr> records = [step_row], record_types = [(PStr ''StepCount'', [step_row])] \<rparr>"

text \<open>An export of ten thousand records, 2000 bytes long: the five-thousandth record ends
  at offset 1000, the last one at offset 2000.\<close>

definition big_elems :: "xml_elem list" where
  "big_elems =
     replicate 4999 (hr_elem ''2024-01-01 08:00:00'' ''60'' 100) @
     [hr_elem ''2024-01-01 09:00:00'' ''61'' 1000] @
     replicate 4999 (hr_elem ''2024-01-01 10:00:00'' ''62'' 1500) @
     [hr_elem ''2024-01-01 11:00:00'' ''63'' 2000]"

definition big_world :: world where
  "big_world =
     file_world\<lparr>stat := (\<lambda>p. if p = ''data/export.xml''
                              then Some \<lparr> st_mtime = 1700000000, st_size = 2000 \<rparr> else None),
                xml_content := (\<lambda>p. if p = ''data/export.xml''
                                     then XmlDoc big_elems False else XmlUnopenable)\<rparr>"

text \<open>
  A date parser and a number parser that know the strings of the examples, and a clock.
  Midnight of 2024-01-01 is second 1704067200, day 19723. The string \<^verbatim>\<open>now\<close> parses to the
  current time.
\<close>

definition demo_env :: env where
  "demo_env = \<lparr>
     to_datetime = (\<lambda>t v. case v of
        PStr s \<Rightarrow> map_of [(''now'', t),
                          (''2024-01-01 08:00:00'', 1704096000),
                          (''2024-01-01 12:00:00'', 1704110400),
                          (''2024-01-01 20:00:00'', 1704139200),
                          (''2024-01-01 23:00:00'', 1704150000),
                          (''2024-01-02 07:00:00'', 1704178800),
                          (''2024-01-02 09:00:00'', 1704186000)] s
      | _ \<Rightarrow> None),
     now = 1704200000,
     str_to_float = map_of [(''60'', 60), (''70'', 70), (''80'', 80), (''100'', 100), (''200'', 200)] \<rparr>"

text \<open>One night of sleep, with the state name a device writes.\<close>

definition sleep_record :: pyrecord where
  "sleep_record =
     [(''type'', PStr ''HKCategoryTypeIdentifierSleepAnalysis''),
      (''startDate'', PStr ''2024-01-01 23:00:00''),
      (''endDate'', PStr ''2024-01-02 07:00:00''),
      (''value'', PStr ''HKCategoryValueSleepAnalysisAsleepCore'')]"

definition sleep_parser :: parser where
  "sleep_parser =
     \<lparr> records = [sleep_record],
       record_types = [(PStr ''HKCategoryTypeIdentifierSleepAnalysis'', [sleep_record])] \<rparr>"

text \<open>Heart rates of two days: 60, 80 and 100 on the first, a single 70 on the second.\<close>

definition hr_record :: "string \<Rightarrow> string \<Rightarrow> pyrecord" where
  "hr_record d v = [(''type'', PStr ''HeartRate''), (''startDate'', PStr d), (''value'', PStr v)]"

definition hr_parser :: parser where
  "hr_parser =
     \<lparr> records = [hr_record ''2024-01-01 08:00:00'' ''60'', hr_record ''2024-01-01 12:00:00'' ''80'',
                  hr_record ''2024-01-01 20:00:00'' ''100'', hr_record ''2024-01-02 09:00:00'' ''70''],
       record_types =
         [(PStr ''HeartRate'',
           [hr_record ''2024-01-01 08:00:00'' ''60'', hr_record ''2024-01-01 12:00:00'' ''80'',
            hr_record ''2024-01-01 20:00:00'' ''100'', hr_record ''2024-01-02 09:00:00'' ''70''])] \<rparr>"


definition now_parser :: parser where
  "now_parser =
     \<lparr> records = [[(''type'', PStr ''StepCount''), (''startDate'', PStr ''now''), (''value'', PStr ''200'')]],
       record_types = [(PStr ''StepCount'',
          [[(''type'', PStr ''StepCount''), (''startDate'', PStr ''now''), (''value'', PStr ''200'')]])] \<rparr>"

section \<open>Facts about the cache\<close>

lemma evict_keeps: "snd (evict cp order mc) cp = mc cp"
  by (induction cp order mc rule: evict.induct) auto

lemma store_memory_cache_entry [simp]:
  "MEMORY_CACHE (store_memory_cache cp pl w) cp = Some pl"
  using evict_keeps [of cp "remove1 cp (MEMORY_CACHE_ORDER w) @ [cp]" "(MEMORY_CACHE w)(cp \<mapsto> pl)"]
  by (auto simp: store_memory_cache_def split: prod.splits)

lemma store_memory_cache_fields [simp]:
  "cache_files (store_memory_cache cp pl w) = cache_files w"
  "isdir (store_memory_cache cp pl w) = isdir w"
  "stat (store_memory_cache cp pl w) = stat w"
  "glob (store_memory_cache cp pl w) = glob w"
  "xml_content (store_memory_cache cp pl w) = xml_content w"
  "json_content (store_memory_cache cp pl w) = json_content w"
  "csv_content (store_memory_cache cp pl w) = csv_content w"
  "fault (store_memory_cache cp pl w) = fault w"
  "remove_fails (store_memory_cache cp pl w) = remove_fails w"
  "clock (store_memory_cache cp pl w) = clock w"
  by (simp_all add: store_memory_cache_def split: prod.splits)

text \<open>The stamp depends on the file system only, not on the caches.\<close>

lemma get_source_stamp_transfer:
  assumes run: "get_source_stamp w source_path = Some r"
  shows "\<forall>w'::world. isdir w' = isdir w \<and> stat w' = stat w \<and> glob w' = glob w
           \<longrightarrow> get_source_stamp w' source_path = Some r"
proof (rule get_source_stamp.raw_induct
        [where P = "\<lambda>w p r. \<forall>w'::world. isdir w' = isdir w \<and> stat w' = stat w \<and> glob w' = glob w
                         \<longrightarrow> get_source_stamp w' p = Some r", rotated, OF run])
  fix f :: "world \<Rightarrow> path \<Rightarrow> stamp option option" and w p r
  assume IH: "\<And>w p r. f w p = Some r \<Longrightarrow>
                \<forall>w'::world. isdir w' = isdir w \<and> stat w' = stat w \<and> glob w' = glob w
                  \<longrightarrow> get_source_stamp w' p = Some r"
    and step: "(if isdir w p
      then case glob w p export_xml @ glob w p shuchu_xml of
           [] \<Rightarrow> (case stat w p of None \<Rightarrow> Some None
                | Some stat_info \<Rightarrow> Some (Some (DirStamp p (st_mtime stat_info))))
           | x # xs \<Rightarrow> f w x
      else case stat w p of None \<Rightarrow> Some None
           | Some stat_info \<Rightarrow>
               Some (Some (FileStamp p (st_mtime stat_info) (st_size stat_info)))) = Some r"
  show "\<forall>w'::world. isdir w' = isdir w \<and> stat w' = stat w \<and> glob w' = glob w
          \<longrightarrow> get_source_stamp w' p = Some r"
  proof (intro allI impI)
    fix w' :: world assume fs: "isdir w' = isdir w \<and> stat w' = stat w \<and> glob w' = glob w"
    show "get_source_stamp w' p = Some r"
      using step fs IH
      by (subst get_source_stamp.simps) (auto split: if_splits list.splits option.splits)
  qed
qed

lemma get_source_stamp_cong_world:
  assumes "isdir w' = isdir w" "stat w' = stat w" "glob w' = glob w"
  shows "get_source_stamp w' source_path = get_source_stamp w source_path"
proof (cases "get_source_stamp w source_path")
  case (Some r)
  then show ?thesis using get_source_stamp_transfer [OF Some] assms by simp
next
  case None
  show ?thesis
  proof (cases "get_source_stamp w' source_path")
    case (Some r)
    then show ?thesis using get_source_stamp_transfer [OF Some] assms None by simp
  next
    case None': None
    then show ?thesis using None by simp
  qed
qed

lemma same_files_refl [simp]: "same_files w w"
  by (simp add: same_files_def)

lemma same_files_trans: "same_files w w' \<Longrightarrow> same_files w' w'' \<Longrightarrow> same_files w w''"
  by (simp add: same_files_def)

lemma same_files_stamp:
  "same_files w w' \<Longrightarrow> get_source_stamp w' source_path = get_source_stamp w source_path"
  by (rule get_source_stamp_cong_world) (simp_all add: same_files_def)

lemma same_files_cache_path:
  "same_files w w' \<Longrightarrow> cache_path_for_source w' source_path = cache_path_for_source w source_path"
  by (simp add: same_files_def cache_path_for_source_def)

lemma load_cache_same_files:
  "load_cache w p cache_path source_path = Some (b, p', w') \<Longrightarrow> same_files w w'"
  by (auto simp: load_cache_def same_files_def
           split: if_splits option.splits disk_file.splits)

text \<open>
  A save leaves the files of the sources as they are, but for the modification time of
  the directory it writes to.
\<close>

lemma dirname_tmp [simp]: "dirname (cache_path @ ''.tmp'') = dirname cache_path"
  by (simp add: dirname_def)

lemma touch_fields [simp]:
  "isdir (touch d w) = isdir w"
  "glob (touch d w) = glob w"
  "xml_content (touch d w) = xml_content w"
  "json_content (touch d w) = json_content w"
  "csv_content (touch d w) = csv_content w"
  "cache_files (touch d w) = cache_files w"
  "fault (touch d w) = fault w"
  "remove_fails (touch d w) = remove_fails w"
  "clock (touch d w) = clock w"
  "MEMORY_CACHE (touch d w) = MEMORY_CACHE w"
  "MEMORY_CACHE_ORDER (touch d w) = MEMORY_CACHE_ORDER w"
  by (simp_all add: touch_def)

lemma stat_touch:
  "stat (touch d w) p =
     (if isdir w d \<and> p = d then map_option (\<lambda>stat_info. stat_info\<lparr>st_mtime := clock w\<rparr>) (stat w d)
      else stat w p)"
  by (simp add: touch_def)

lemma stat_touch_touch [simp]: "stat (touch d (touch d w)) = stat (touch d w)"
  by (rule ext) (auto simp: stat_touch option.map_comp comp_def)

lemma stat_touch_cache_files [simp]: "stat (touch d (w\<lparr>cache_files := c\<rparr>)) = stat (touch d w)"
  by (simp add: touch_def)

lemma same_files_file_create:
  "same_files w (file_create f c w) \<or> same_files (touch (dirname f) w) (file_create f c w)"
  by (simp add: file_create_def same_files_def)

lemma same_files_file_replace:
  "dirname src = dirname dst \<Longrightarrow> same_files (touch (dirname dst) w) (file_replace src dst w)"
  by (simp add: file_replace_def same_files_def)

lemma same_files_file_remove:
  "same_files (touch (dirname f) w) (file_remove f w)"
  by (simp add: file_remove_def same_files_def)

lemma tmp_neq [simp]: "cache_path @ ''.tmp'' \<noteq> cache_path" "cache_path \<noteq> cache_path @ ''.tmp''"
  by simp_all

lemma write_ok:
  assumes "fault w = NoFault"
  shows "\<exists>w'. write_and_replace (cache_path @ ''.tmp'') cache_path pl w = (True, w') \<and>
           same_files (touch (dirname cache_path) w) w' \<and>
           cache_files w' = (cache_files w)(cache_path @ ''.tmp'' := None, cache_path \<mapsto> Pickled pl) \<and>
           MEMORY_CACHE w' = MEMORY_CACHE w \<and> MEMORY_CACHE_ORDER w' = MEMORY_CACHE_ORDER w"
  using assms
  by (auto simp: write_and_replace_def file_replace_def file_create_def same_files_def fun_upd_twist)

lemma write_fails:
  assumes "fault w \<noteq> NoFault"
  shows "\<exists>w'. write_and_replace (cache_path @ ''.tmp'') cache_path pl w = (False, w') \<and>
           same_files_but_mtime (dirname cache_path) w (remove_tmp (cache_path @ ''.tmp'') w') \<and>
           (\<forall>q. q \<noteq> cache_path @ ''.tmp'' \<longrightarrow>
                cache_files (remove_tmp (cache_path @ ''.tmp'') w') q = cache_files w q) \<and>
           (\<not> remove_fails w \<longrightarrow> cache_files (remove_tmp (cache_path @ ''.tmp'') w') (cache_path @ ''.tmp'') = None) \<and>
           MEMORY_CACHE (remove_tmp (cache_path @ ''.tmp'') w') = MEMORY_CACHE w"
proof (cases "fault w")
  case NoFault
  then show ?thesis using assms by simp
next
  case OpenFails
  then show ?thesis
    by (simp add: write_and_replace_def remove_tmp_def file_remove_def same_files_but_mtime_def
          same_files_def)
next
  case DumpFails
  then show ?thesis
    by (simp add: write_and_replace_def remove_tmp_def file_remove_def file_create_def
          same_files_but_mtime_def same_files_def)
next
  case ReplaceFails
  then show ?thesis
    by (simp add: write_and_replace_def remove_tmp_def file_remove_def file_create_def
          same_files_but_mtime_def same_files_def)
qed

text \<open>The save returns as soon as the stamp computation does.\<close>

lemma save_cache_returns:
  "get_source_stamp w source_path = Some r \<Longrightarrow>
   \<exists>w' msgs. save_cache w p cache_path source_path = Some (w', msgs)"
  by (cases r) (auto simp: save_cache_def Let_def split: prod.splits bool.splits)



lemma load_cache_miss_no_file:
  "cache_files w cache_path = None \<Longrightarrow> load_cache w p cache_path source_path = Some (False, p, w)"
  by (simp add: load_cache_def)

section \<open>Facts about the readers\<close>

text \<open>An XML record has string attributes only, so indexing it never raises, and the loop
  appends exactly the \<^verbatim>\<open>Record\<close> elements.\<close>

lemma rec_get_attrib_record:
  "rec_get (attrib_record e) k = map_option PStr (map_of (attrib e) k)"
  by (induction "attrib e" arbitrary: e) (auto simp: rec_get_def attrib_record_def map_of_map)

lemma index_record_attrib: "\<exists>ix'. index_record (attrib_record e) ix = Some ix'"
  by (auto simp: index_record_def rec_get_attrib_record split: option.splits)

lemma xml_loop_fst:
  "snd (snd (xml_loop cb ts elems p last_progress n)) \<and>
   records (fst (xml_loop cb ts elems p last_progress n))
     = records p @ map attrib_record (filter (\<lambda>e. tag e = ''Record'') elems)"
proof (induction elems arbitrary: cb ts p last_progress n)
  case Nil
  then show ?case by simp
next
  case (Cons e elems)
  obtain ix where ix: "index_record (attrib_record e) (record_types p) = Some ix"
    using index_record_attrib by blast
  show ?case
    using ix by (simp add: Cons.IH split_def)
qed

lemma xml_loop_records:
  "xml_loop cb ts elems p last_progress n = (q, out, ok) \<Longrightarrow>
     ok \<and> records q = records p @ map attrib_record (filter (\<lambda>e. tag e = ''Record'') elems)"
  using xml_loop_fst [of cb ts elems p last_progress n] by simp

section \<open>Facts about the progress reports\<close>

lemma progress_of_bounds: "5 \<le> progress_of pos t \<and> progress_of pos t \<le> 95"
  by (simp add: progress_of_def)

lemma progress_of_mono: "pos \<le> pos' \<Longrightarrow> progress_of pos t \<le> progress_of pos' t"
proof (cases "t = 0")
  case True
  then show ?thesis by (simp add: progress_of_def)
next
  case False
  assume "pos \<le> pos'"
  then have "(int pos * 90) div int t \<le> (int pos' * 90) div int t"
    using False by (intro zdiv_mono1) auto
  then show ?thesis by (simp add: progress_of_def)
qed

lemma xml_loop_out:
  assumes "sorted (map tell elems)"
    and "\<forall>e \<in> set elems. \<forall>t. ts = Some t \<longrightarrow> last_progress \<le> progress_of (tell e) t"
  shows "sorted_wrt (<) (fst (snd (xml_loop cb ts elems p last_progress n))) \<and>
         (\<forall>v \<in> set (fst (snd (xml_loop cb ts elems p last_progress n))).
            last_progress < v \<and> 5 \<le> v \<and> v \<le> 95)"
  using assms
proof (induction elems arbitrary: p last_progress n)
  case Nil
  then show ?case by simp
next
  case (Cons e elems)
  have sorted: "sorted (map tell elems)" using Cons.prems(1) by simp
  have later: "\<forall>e' \<in> set elems. tell e \<le> tell e'" using Cons.prems(1) by simp
  have pre: "\<forall>e' \<in> set elems. \<forall>t. ts = Some t \<longrightarrow> last_progress \<le> progress_of (tell e') t"
    using Cons.prems(2) by simp
  note same = Cons.IH [OF sorted pre]
  obtain ix where ix: "index_record (attrib_record e) (record_types p) = Some ix"
    using index_record_attrib by blast
  let ?p' = "p\<lparr>records := records p @ [attrib_record e], record_types := ix\<rparr>"
  show ?case
  proof (cases "tag e = ''Record'' \<and> cb \<and> ts \<noteq> None \<and> ts \<noteq> Some 0 \<and> (n + 1) mod 5000 = 0 \<and>
                 progress_of (tell e) (the ts) \<noteq> last_progress")
    case False
    then have "xml_loop cb ts (e # elems) p last_progress n
                 = xml_loop cb ts elems (if tag e = ''Record'' then ?p' else p) last_progress
                     (if tag e = ''Record'' then n + 1 else n)"
      using ix by auto
    then show ?thesis using same by simp
  next
    case True
    then obtain t where t: "ts = Some t" by auto
    let ?v = "progress_of (tell e) t"
    have lt: "last_progress < ?v"
      using Cons.prems(2) True t by fastforce
    have pre': "\<forall>e' \<in> set elems. \<forall>t'. ts = Some t' \<longrightarrow> ?v \<le> progress_of (tell e') t'"
      using later t progress_of_mono by auto
    note IH = Cons.IH [OF sorted pre', of ?p' "n + 1"]
    have eq: "fst (snd (xml_loop cb ts (e # elems) p last_progress n))
                = ?v # fst (snd (xml_loop cb ts elems ?p' ?v (n + 1)))"
      using True ix t by (simp add: split_def)
    show ?thesis
      unfolding eq using IH lt progress_of_bounds [of "tell e" t] by auto
  qed
qed

text \<open>The percents do not depend on the parser, and records between two multiples of 5000
  report nothing.\<close>

lemma xml_loop_out_indep:
  "fst (snd (xml_loop cb ts elems p last_progress n))
     = fst (snd (xml_loop cb ts elems q last_progress n))"
proof (induction elems arbitrary: cb p q last_progress n)
  case Nil
  then show ?case by simp
next
  case (Cons e elems)
  obtain ix where ix: "index_record (attrib_record e) (record_types p) = Some ix"
    using index_record_attrib by blast
  obtain iy where iy: "index_record (attrib_record e) (record_types q) = Some iy"
    using index_record_attrib by blast
  let ?p' = "p\<lparr>records := records p @ [attrib_record e], record_types := ix\<rparr>"
  let ?q' = "q\<lparr>records := records q @ [attrib_record e], record_types := iy\<rparr>"
  show ?case
  proof (cases "tag e = ''Record'' \<and> cb \<and> ts \<noteq> None \<and> ts \<noteq> Some 0 \<and> (n + 1) mod 5000 = 0 \<and>
                 progress_of (tell e) (the ts) \<noteq> last_progress")
    case False
    then have "xml_loop cb ts (e # elems) p last_progress n
                 = xml_loop cb ts elems (if tag e = ''Record'' then ?p' else p) last_progress
                     (if tag e = ''Record'' then n + 1 else n)"
      and "xml_loop cb ts (e # elems) q last_progress n
                 = xml_loop cb ts elems (if tag e = ''Record'' then ?q' else q) last_progress
                     (if tag e = ''Record'' then n + 1 else n)"
      using ix iy by auto
    then show ?thesis
      using Cons.IH [of cb "if tag e = ''Record'' then ?p' else p" last_progress
              "if tag e = ''Record'' then n + 1 else n" "if tag e = ''Record'' then ?q' else q"]
      by simp
  next
    case True
    let ?v = "progress_of (tell e) (the ts)"
    have "fst (snd (xml_loop cb ts (e # elems) p last_progress n))
            = ?v # fst (snd (xml_loop cb ts elems ?p' ?v (n + 1)))"
      and "fst (snd (xml_loop cb ts (e # elems) q last_progress n))
            = ?v # fst (snd (xml_loop cb ts elems ?q' ?v (n + 1)))"
      using True ix iy by (simp_all add: split_def)
    then show ?thesis
      using Cons.IH [of cb ?p' ?v "n + 1" ?q'] by simp
  qed
qed

lemma xml_loop_quiet:
  "tag e = ''Record'' \<Longrightarrow> n mod 5000 + k < 5000 \<Longrightarrow>
   fst (snd (xml_loop cb ts (replicate k e @ rest) p last_progress n))
     = fst (snd (xml_loop cb ts rest p last_progress (n + k)))"
proof (induction k arbitrary: p n)
  case 0
  then show ?case by simp
next
  case (Suc k)
  obtain ix where ix: "index_record (attrib_record e) (record_types p) = Some ix"
    using index_record_attrib by blast
  let ?p' = "p\<lparr>records := records p @ [attrib_record e], record_types := ix\<rparr>"
  have small: "n mod 5000 < 4999" using Suc.prems(2) by simp
  have m: "Suc n mod 5000 = Suc (n mod 5000)"
    using small by (simp add: mod_Suc)
  have "fst (snd (xml_loop cb ts (replicate (Suc k) e @ rest) p last_progress n))
          = fst (snd (xml_loop cb ts (replicate k e @ rest) ?p' last_progress (Suc n)))"
    using Suc.prems(1) ix m by simp
  also have "\<dots> = fst (snd (xml_loop cb ts rest ?p' last_progress (Suc n + k)))"
    using Suc.IH [OF Suc.prems(1), of "Suc n" ?p'] m Suc.prems(2) by simp
  also have "\<dots> = fst (snd (xml_loop cb ts rest p last_progress (n + Suc k)))"
    using xml_loop_out_indep [of cb ts rest ?p' last_progress "Suc n + k" p] by simp
  finally show ?case .
qed

lemma big_elems_out:
  "fst (snd (xml_loop True (Some 2000) big_elems p (- 1) 0)) = [50, 95]"
proof -
  let ?a = "hr_elem ''2024-01-01 08:00:00'' ''60'' 100"
  let ?b = "hr_elem ''2024-01-01 09:00:00'' ''61'' 1000"
  let ?c = "hr_elem ''2024-01-01 10:00:00'' ''62'' 1500"
  let ?d = "hr_elem ''2024-01-01 11:00:00'' ''63'' 2000"
  have tags: "tag ?a = ''Record''" "tag ?b = ''Record''" "tag ?c = ''Record''" "tag ?d = ''Record''"
    by (simp_all add: hr_elem_def)
  have tells: "tell ?b = 1000" "tell ?d = 2000"
    by (simp_all add: hr_elem_def)
  have pr: "progress_of 1000 2000 = 50" "progress_of 2000 2000 = 95"
    by (simp_all add: progress_of_def)
  have one: "\<And>(e::xml_elem) rest q l n. tag e = ''Record'' \<Longrightarrow> Suc n mod 5000 = 0 \<Longrightarrow>
      progress_of (tell e) 2000 \<noteq> l \<Longrightarrow>
      fst (snd (xml_loop True (Some 2000) (e # rest) q l n))
        = progress_of (tell e) 2000 # fst (snd (xml_loop True (Some 2000) rest q (progress_of (tell e) 2000) (Suc n)))"
  proof -
    fix e :: xml_elem and rest and q :: parser and l and n :: nat
    assume h: "tag e = ''Record''" "Suc n mod 5000 = 0" "progress_of (tell e) 2000 \<noteq> l"
    obtain ix where ix: "index_record (attrib_record e) (record_types q) = Some ix"
      using index_record_attrib by blast
    show "fst (snd (xml_loop True (Some 2000) (e # rest) q l n))
        = progress_of (tell e) 2000 # fst (snd (xml_loop True (Some 2000) rest q (progress_of (tell e) 2000) (Suc n)))"
      using h ix
        xml_loop_out_indep [of True "Some 2000" rest
          "q\<lparr>records := records q @ [attrib_record e], record_types := ix\<rparr>"
          "progress_of (tell e) 2000" "Suc n" q]
      by (simp add: split_def)
  qed
  have "fst (snd (xml_loop True (Some 2000) big_elems p (- 1) 0))
          = fst (snd (xml_loop True (Some 2000) (?b # replicate 4999 ?c @ [?d]) p (- 1) 4999))"
    unfolding big_elems_def using xml_loop_quiet [OF tags(1), of 0 4999 True "Some 2000" _ p "- 1"]
    by simp
  also have "\<dots> = 50 # fst (snd (xml_loop True (Some 2000) (replicate 4999 ?c @ [?d]) p 50 5000))"
    using one [OF tags(2), of 4999 "- 1" "replicate 4999 ?c @ [?d]" p] tells pr by simp
  also have "\<dots> = 50 # fst (snd (xml_loop True (Some 2000) [?d] p 50 9999))"
    using xml_loop_quiet [OF tags(3), of 5000 4999 True "Some 2000" "[?d]" p 50] by simp
  also have "\<dots> = [50, 95]"
    using one [OF tags(4), of 9999 50 "[]" p] tells pr by simp
  finally show ?thesis .
qed

section \<open>The readers on the concrete directory\<close>

lemma parse_file_world:
  "\<exists>w' out. parse_xml file_world new_parser ''data/export.xml'' False = Some (True, demo_parser, w', out)"
  by (simp add: parse_xml_def load_cache_def cache_path_for_source_def file_world_def dirname_def
        path_join_def CACHE_FILENAME_def new_parser_def demo_elems_def hr_elem_def
        index_record_def rec_get_def attrib_record_def demo_parser_def
        save_cache_def get_source_stamp.simps write_and_replace_def Let_def)

lemma json_file_world:
  "parse_json_files file_world new_parser ''data''
     = (True, \<lparr> records = [[(''type'', PStr ''Other''), (''value'', PNum 1)]],
                record_types = [(PStr ''Other'', [[(''type'', PStr ''Other''), (''value'', PNum 1)]])] \<rparr>)"
  by (simp add: parse_json_files_def file_world_def new_parser_def index_record_def rec_get_def Let_def export_xml_def)

lemma parse_big_world:
  "\<exists>ok p' w'. parse_xml big_world new_parser ''data/export.xml'' True = Some (ok, p', w', [50, 95])"
proof -
  let ?cp = "cache_path_for_source big_world ''data/export.xml''"
  have load: "load_cache big_world new_parser ?cp ''data/export.xml'' = Some (False, new_parser, big_world)"
    by (rule load_cache_miss_no_file) (simp add: big_world_def file_world_def)
  have doc: "xml_content big_world ''data/export.xml'' = XmlDoc big_elems False"
    by (simp add: big_world_def)
  have size: "map_option st_size (stat big_world ''data/export.xml'') = Some 2000"
    by (simp add: big_world_def)
  obtain q out ok where loop:
    "xml_loop True (Some 2000) big_elems new_parser (- 1) 0 = (q, out, ok)"
    by (metis prod_cases3)
  have out: "out = [50, 95]"
    using big_elems_out [of new_parser] loop by simp
  have ok: "ok" using xml_loop_records [OF loop] by simp
  have "get_source_stamp big_world ''data/export.xml''
          = Some (Some (FileStamp ''data/export.xml'' 1700000000 2000))"
    by (simp add: get_source_stamp.simps big_world_def file_world_def)
  then obtain w'' msgs where
    save: "save_cache big_world q ?cp ''data/export.xml'' = Some (w'', msgs)"
    using save_cache_returns by blast
  have loop': "xml_loop True (Some 2000) big_elems new_parser (- 1) 0 = (q, [50, 95], True)"
    using loop out ok by simp
  show ?thesis
    by (simp add: parse_xml_def load doc size loop' save)
qed

section \<open>Facts about the order of the readers\<close>



lemma fallback_order_Nil [simp]: "\<not> fallback_order fs []"
  by (cases fs) simp_all




section \<open>Facts about the derived metrics\<close>

lemma group_dates_nonempty: "rows \<noteq> [] \<Longrightarrow> group_dates rows \<noteq> []"
  by (cases rows) (auto simp: group_dates_def simp flip: set_empty)

lemma rows_on_map:
  "rows_on d (map (\<lambda>row. (f row, g row)) rows) = map g (filter (\<lambda>row. f row = d) rows)"
  by (induction rows) (auto simp: rows_on_def)

lemma group_dates_map:
  "group_dates (map (\<lambda>row. (f row, g row)) rows) = sort (remdups (map f rows))"
  by (simp add: group_dates_def comp_def)

lemma sleep_row_of_duration:
  "sleep_row_of env r = Some row \<Longrightarrow>
     row_duration row = map_option (hours_between (row_start row)) (row_end row)"
  by (auto simp: sleep_row_of_def Let_def split: if_splits)

lemma sleep_rows_duration:
  assumes "row \<in> set (get_sleep_analysis_data env p)"
  shows "row_duration row = map_option (hours_between (row_start row)) (row_end row)"
proof -
  from assms obtain r where "sleep_row_of env r = Some row"
    by (auto simp: get_sleep_analysis_data_def List.map_filter_def)
  then show ?thesis by (rule sleep_row_of_duration)
qed

lemma daily_sleep_totals:
  assumes "\<forall>row \<in> set rows. row_duration row = map_option (hours_between (row_start row)) (row_end row)"
  shows "daily_sleep rows
           = map (\<lambda>d. (d, total_hours rows d))
               (sort (remdups (map (\<lambda>row. date_of (row_start row)) rows)))"
proof -
  have meq: "map (\<lambda>row. (date_of (row_start row),
                  map_option (hours_between (row_start row)) (row_end row))) rows
          = map (\<lambda>row. (date_of (row_start row), row_duration row)) rows"
    using assms by simp
  have "daily_sleep rows
               = sum_durations (map (\<lambda>row. (date_of (row_start row), row_duration row)) rows)"
    unfolding daily_sleep_def meq by simp
  then show ?thesis
    by (simp add: sum_durations_def rows_on_map group_dates_map total_hours_def comp_def)
qed

text \<open>Grouping the heart-rate series by date; the index of a row.\<close>

lemma rows_on_by_date: "rows_on d (by_date data) = day_values data d"
  by (induction data) (auto simp: rows_on_def by_date_def day_values_def)

lemma group_dates_by_date:
  "group_dates (by_date data) = sort (remdups (map (\<lambda>(t, v). date_of t) data))"
  by (simp add: group_dates_def by_date_def comp_def split_def)

lemma day_values_nonempty:
  "d \<in> set (map (\<lambda>(t, v). date_of t) data) \<Longrightarrow> day_values data d \<noteq> []"
  by (auto simp: day_values_def filter_empty_conv)

lemma stress_index_raw:
  "stress_index (stress_row_of d vs) = min 10 (max 1 (raw_index vs))"
  by (simp add: stress_row_of_def clip_def raw_index_def std_def fillna0_def sample_std_def mean_def)

lemma raw_index_single: "raw_index [v] = 0"
  by (simp add: raw_index_def)

lemma hr_data_demo:
  "get_heart_rate_data demo_env hr_parser
     = [(1704096000, 60), (1704110400, 80), (1704139200, 100), (1704186000, 70)]"
  by (simp add: get_heart_rate_data_def records_of_types_def hr_types_def hr_parser_def
        hr_record_def dated_values_def List.map_filter_def extract_value_def value_fields_def
        extract_date_def date_fields_def has_truthy_def rec_get_def safe_date_conversion_def
        demo_env_def)

lemma sqrt_400: "sqrt 400 = 20"
  by (rule real_sqrt_unique) simp_all

text \<open>Where the dates of a record are fixed, the clock makes no difference.\<close>

lemma py_float_now [simp]: "py_float (env\<lparr>now := t\<rparr>) v = py_float env v"
  by (cases v) simp_all

lemma extract_value_now [simp]: "extract_value (env\<lparr>now := t\<rparr>) r = extract_value env r"
  by (simp add: extract_value_def cong: option.case_cong)








section \<open>The two stamp computations\<close>

text \<open>
  Claim C3: the stamp computation of the record-store cache and the one of the dashboard
  cache give equal stamps for every source, and for a directory both recognise every
  accepted export file name. On a directory whose only export is named with the Chinese
  file name the two differ: the record-store cache stamps the export file, the dashboard
  cache, which searches for \<^verbatim>\<open>export.xml\<close> only, stamps the directory.
\<close>

theorem stamps_differ_on_chinese_export:
  "get_source_stamp zh_world ''health''
     = Some (Some (FileStamp (''health/'' @ shuchu_xml) 200 5000)) \<and>
   dashboard_get_source_stamp zh_world ''health''
     = Some (Some (DirStamp ''health'' 100)) \<and>
   get_source_stamp zh_world ''health'' \<noteq> dashboard_get_source_stamp zh_world ''health''"
  by (simp add: get_source_stamp.simps dashboard_get_source_stamp.simps zh_world_def
        export_xml_def shuchu_xml_def)

section \<open>Cache round trip\<close>

text \<open>
  Claim C1 has a save followed by a load, the source unchanged in between, give back the
  saved records and type index. For a directory without an export file the code does not:
  the stamp of such a source is the modification time of the directory, \<^verbatim>\<open>_save_cache\<close>
  takes it before it writes, and the cache file is written into that very directory
  (\<^verbatim>\<open>_cache_path_for_source\<close>), which sets the modification time to the time of the write.
  The load that follows finds the cache file, computes a stamp that differs from the saved
  one, and misses in the memory tier and in the disk tier, with nothing touched between
  the two calls. Here the directory \<^verbatim>\<open>notes\<close> holds one JSON file; the store read from it
  is saved and then looked up by a new parser.
\<close>

theorem directory_source_misses_its_own_cache:
  "parse_json_files notes_world new_parser ''notes'' = (True, notes_parser) \<and>
   cache_path_for_source notes_world ''notes'' = ''notes/health_cache.pkl'' \<and>
   get_source_stamp notes_world ''notes'' = Some (Some (DirStamp ''notes'' 1700000000)) \<and>
   (\<exists>w'. save_cache notes_world notes_parser ''notes/health_cache.pkl'' ''notes''
            = Some (w', [''Saved cache to notes/health_cache.pkl'']) \<and>
          same_files (touch ''notes'' notes_world) w' \<and>
          cache_files w' ''notes/health_cache.pkl''
            = Some (Pickled (store_payload (DirStamp ''notes'' 1700000000) notes_parser)) \<and>
          MEMORY_CACHE w' ''notes/health_cache.pkl''
            = Some (store_payload (DirStamp ''notes'' 1700000000) notes_parser) \<and>
          get_source_stamp w' ''notes'' = Some (Some (DirStamp ''notes'' 1700003600)) \<and>
          load_cache w' new_parser ''notes/health_cache.pkl'' ''notes''
            = Some (False, new_parser, w'))"
proof -
  let ?pl = "store_payload (DirStamp ''notes'' 1700000000) notes_parser"
  have json: "parse_json_files notes_world new_parser ''notes'' = (True, notes_parser)"
    by (simp add: parse_json_files_def notes_world_def new_parser_def notes_parser_def
          index_record_def rec_get_def step_row_def Let_def)
  have cp: "cache_path_for_source notes_world ''notes'' = ''notes/health_cache.pkl''"
    by (simp add: cache_path_for_source_def notes_world_def path_join_def CACHE_FILENAME_def)
  have stamp: "get_source_stamp notes_world ''notes'' = Some (Some (DirStamp ''notes'' 1700000000))"
    by (simp add: get_source_stamp.simps notes_world_def export_xml_def shuchu_xml_def)
  have dir: "dirname ''notes/health_cache.pkl'' = ''notes''"
    by (simp add: dirname_def)
  have nofault: "fault notes_world = NoFault"
    by (simp add: notes_world_def)
  obtain w1 where w1: "write_and_replace (''notes/health_cache.pkl'' @ ''.tmp'') ''notes/health_cache.pkl'' ?pl notes_world = (True, w1)"
    and sf: "same_files (touch (dirname ''notes/health_cache.pkl'') notes_world) w1"
    and cf: "cache_files w1 = (cache_files notes_world)(''notes/health_cache.pkl'' @ ''.tmp'' := None,
                ''notes/health_cache.pkl'' \<mapsto> Pickled ?pl)"
    and mc: "MEMORY_CACHE w1 = MEMORY_CACHE notes_world"
    using write_ok [OF nofault] by blast
  define w' where "w' = store_memory_cache ''notes/health_cache.pkl'' ?pl w1"
  have save: "save_cache notes_world notes_parser ''notes/health_cache.pkl'' ''notes''
            = Some (w', [''Saved cache to notes/health_cache.pkl''])"
    using w1 by (simp add: save_cache_def stamp Let_def w'_def)
  have sf': "same_files (touch ''notes'' notes_world) w'"
    using sf by (simp add: same_files_def w'_def dir)
  have disk: "cache_files w' ''notes/health_cache.pkl'' = Some (Pickled ?pl)"
    by (simp add: w'_def cf)
  have mem: "MEMORY_CACHE w' ''notes/health_cache.pkl'' = Some ?pl"
    by (simp add: w'_def)
  have "get_source_stamp (touch ''notes'' notes_world) ''notes''
          = Some (Some (DirStamp ''notes'' 1700003600))"
    by (simp add: get_source_stamp.simps stat_touch notes_world_def export_xml_def shuchu_xml_def)
  then have stamp': "get_source_stamp w' ''notes'' = Some (Some (DirStamp ''notes'' 1700003600))"
    using same_files_stamp [OF sf'] by simp
  have load: "load_cache w' new_parser ''notes/health_cache.pkl'' ''notes'' = Some (False, new_parser, w')"
    by (simp add: load_cache_def disk mem stamp' store_payload_def)
  show ?thesis
    using json cp stamp save sf' disk mem stamp' load by blast
qed

text \<open>
  The stamp of an export file is not affected by a write to a directory: where the stamp
  of a source is a file stamp, it is the same in every world that differs in the
  modification times of directories only.
\<close>

lemma get_source_stamp_file_transfer:
  assumes run: "get_source_stamp w source_path = Some r"
  shows "\<forall>w'::world. isdir w' = isdir w \<and> glob w' = glob w \<and>
             (\<forall>q. \<not> isdir w q \<longrightarrow> stat w' q = stat w q)
           \<longrightarrow> (\<forall>x m s. r = Some (FileStamp x m s) \<longrightarrow> get_source_stamp w' source_path = Some r)"
proof (rule get_source_stamp.raw_induct
        [where P = "\<lambda>w p r. \<forall>w'::world. isdir w' = isdir w \<and> glob w' = glob w \<and>
                         (\<forall>q. \<not> isdir w q \<longrightarrow> stat w' q = stat w q)
                       \<longrightarrow> (\<forall>x m s. r = Some (FileStamp x m s) \<longrightarrow> get_source_stamp w' p = Some r)",
         rotated, OF run])
  fix f :: "world \<Rightarrow> path \<Rightarrow> stamp option option" and w p r
  assume IH: "\<And>w p r. f w p = Some r \<Longrightarrow>
                \<forall>w'::world. isdir w' = isdir w \<and> glob w' = glob w \<and>
                    (\<forall>q. \<not> isdir w q \<longrightarrow> stat w' q = stat w q)
                  \<longrightarrow> (\<forall>x m s. r = Some (FileStamp x m s) \<longrightarrow> get_source_stamp w' p = Some r)"
    and step: "(if isdir w p
      then case glob w p export_xml @ glob w p shuchu_xml of
           [] \<Rightarrow> (case stat w p of None \<Rightarrow> Some None
                | Some stat_info \<Rightarrow> Some (Some (DirStamp p (st_mtime stat_info))))
           | x # xs \<Rightarrow> f w x
      else case stat w p of None \<Rightarrow> Some None
           | Some stat_info \<Rightarrow>
               Some (Some (FileStamp p (st_mtime stat_info) (st_size stat_info)))) = Some r"
  show "\<forall>w'::world. isdir w' = isdir w \<and> glob w' = glob w \<and>
            (\<forall>q. \<not> isdir w q \<longrightarrow> stat w' q = stat w q)
          \<longrightarrow> (\<forall>x m s. r = Some (FileStamp x m s) \<longrightarrow> get_source_stamp w' p = Some r)"
  proof (intro allI impI)
    fix w' :: world and x m s
    assume fs: "isdir w' = isdir w \<and> glob w' = glob w \<and> (\<forall>q. \<not> isdir w q \<longrightarrow> stat w' q = stat w q)"
      and r: "r = Some (FileStamp x m s)"
    show "get_source_stamp w' p = Some r"
    proof (cases "isdir w p")
      case False
      then have "stat w' p = stat w p" using fs by blast
      then show ?thesis
        using step fs False by (subst get_source_stamp.simps) simp
    next
      case True
      show ?thesis
      proof (cases "glob w p export_xml @ glob w p shuchu_xml")
        case Nil
        then show ?thesis using step True r by (auto split: option.splits)
      next
        case (Cons y ys)
        then have "f w y = Some r" using step True by simp
        then have "get_source_stamp w' y = Some r" using IH fs r by blast
        then show ?thesis
          using True fs Cons by (subst get_source_stamp.simps) simp
      qed
    qed
  qed
qed

lemma same_files_touch_file_stamp:
  assumes stamp: "get_source_stamp w source_path = Some (Some (FileStamp x m s))"
    and sf: "same_files (touch d w) w'"
  shows "get_source_stamp w' source_path = Some (Some (FileStamp x m s))"
proof -
  have "isdir w' = isdir w \<and> glob w' = glob w \<and> (\<forall>q. \<not> isdir w q \<longrightarrow> stat w' q = stat w q)"
    using sf by (auto simp: same_files_def stat_touch)
  then show ?thesis
    using get_source_stamp_file_transfer [OF stamp] by blast
qed

text \<open>
  So the round trip of claim C1 holds for every source that is stamped by a file, an
  export file or a directory with an export file in it: the load after the save gives back
  the saved records and type index, from the memory tier in the same process and from the
  disk tier in a new one. (The flag of the load is \<^verbatim>\<open>len(self.records) > 0\<close>.)
\<close>

lemma round_trip_of_a_file_stamp:
  assumes stamp: "get_source_stamp w source_path = Some (Some (FileStamp x m s))"
    and nofault: "fault w = NoFault"
  shows "\<exists>w1. save_cache w p cache_path source_path = Some (w1, [''Saved cache to '' @ cache_path]) \<and>
           (\<exists>q' w2. load_cache w1 q cache_path source_path = Some (records p \<noteq> [], q', w2) \<and>
              records q' = records p \<and> record_types q' = record_types p) \<and>
           (\<exists>q' w2. load_cache (w1\<lparr>MEMORY_CACHE := (\<lambda>c. None), MEMORY_CACHE_ORDER := []\<rparr>) q
                        cache_path source_path = Some (records p \<noteq> [], q', w2) \<and>
              records q' = records p \<and> record_types q' = record_types p)"
proof -
  let ?pl = "store_payload (FileStamp x m s) p"
  obtain w0 where w0: "write_and_replace (cache_path @ ''.tmp'') cache_path ?pl w = (True, w0)"
    and sf: "same_files (touch (dirname cache_path) w) w0"
    and cf: "cache_files w0 = (cache_files w)(cache_path @ ''.tmp'' := None, cache_path \<mapsto> Pickled ?pl)"
    using write_ok [OF nofault] by blast
  define w1 where "w1 = store_memory_cache cache_path ?pl w0"
  define w1' where "w1' = w1\<lparr>MEMORY_CACHE := (\<lambda>c. None), MEMORY_CACHE_ORDER := []\<rparr>"
  have save: "save_cache w p cache_path source_path = Some (w1, [''Saved cache to '' @ cache_path])"
    using w0 by (simp add: save_cache_def stamp Let_def w1_def)
  have sf1: "same_files (touch (dirname cache_path) w) w1" "same_files (touch (dirname cache_path) w) w1'"
    using sf by (simp_all add: same_files_def w1_def w1'_def)
  have stamp1: "get_source_stamp w1 source_path = Some (Some (FileStamp x m s))"
    "get_source_stamp w1' source_path = Some (Some (FileStamp x m s))"
    using same_files_touch_file_stamp [OF stamp] sf1 by blast+
  have disk: "cache_files w1 cache_path = Some (Pickled ?pl)" "cache_files w1' cache_path = Some (Pickled ?pl)"
    by (simp_all add: w1_def w1'_def cf)
  have mem: "MEMORY_CACHE w1 cache_path = Some ?pl" "MEMORY_CACHE w1' cache_path = None"
    by (simp_all add: w1_def w1'_def)
  have use: "records (use_payload ?pl q) = records p" "record_types (use_payload ?pl q) = record_types p"
    by (simp_all add: use_payload_def store_payload_def)
  have pl: "payload_truthy ?pl" "cache_version ?pl = Some CACHE_VERSION" "source_stamp ?pl = Some (FileStamp x m s)"
    by (simp_all add: payload_truthy_def store_payload_def)
  have a: "\<exists>q' w2. load_cache w1 q cache_path source_path = Some (records p \<noteq> [], q', w2) \<and>
              records q' = records p \<and> record_types q' = record_types p"
    using disk(1) mem(1) stamp1(1) use pl by (simp add: load_cache_def)
  have b: "\<exists>q' w2. load_cache w1' q cache_path source_path = Some (records p \<noteq> [], q', w2) \<and>
              records q' = records p \<and> record_types q' = record_types p"
    using disk(2) mem(2) stamp1(2) use pl by (simp add: load_cache_def)
  show ?thesis
    using save a b unfolding w1'_def by blast
qed

lemma round_trip_of_the_export:
  "\<exists>w1. save_cache file_world demo_parser ''data/health_cache.pkl'' ''data''
           = Some (w1, [''Saved cache to data/health_cache.pkl'']) \<and>
         (\<exists>q' w2. load_cache w1 new_parser ''data/health_cache.pkl'' ''data'' = Some (True, q', w2) \<and>
            records q' = records demo_parser \<and> record_types q' = record_types demo_parser)"
proof -
  have stamp: "get_source_stamp file_world ''data''
                 = Some (Some (FileStamp ''data/export.xml'' 1700000000 600))"
  proof -
    have xml: "get_source_stamp file_world ''data/export.xml''
                  = Some (Some (FileStamp ''data/export.xml'' 1700000000 600))"
      by (simp add: get_source_stamp.simps file_world_def)
    have dir: "isdir file_world ''data''"
      "glob file_world ''data'' export_xml @ glob file_world ''data'' shuchu_xml = [''data/export.xml'']"
      by (simp_all add: file_world_def export_xml_def shuchu_xml_def)
    show ?thesis
      by (subst get_source_stamp.simps) (simp add: dir xml)
  qed
  have nofault: "fault file_world = NoFault"
    by (simp add: file_world_def)
  have nonempty: "records demo_parser \<noteq> []"
    by (simp add: demo_parser_def demo_elems_def hr_elem_def)
  show ?thesis
    using round_trip_of_a_file_stamp [OF stamp nofault, of demo_parser "''data/health_cache.pkl''" new_parser]
      nonempty by auto
qed

section \<open>The order of the fallbacks\<close>




section \<open>The stress index\<close>

text \<open>
  Claim C4: for a record store with at least one numeric heart-rate record,
  \<^verbatim>\<open>get_stress_indicators\<close> has one row for every calendar date of the heart-rate series, in
  ascending order, and the index of a date is (stdev * 0.6 + range * 0.4) / 10 of that
  date's values, a standard deviation that is undefined (a single value) being read as
  zero, clipped into the interval from 1 to 10; a date with a single value therefore gets
  the index 1. Arithmetic is that of the reals.
\<close>

theorem stress_index_is_clipped_formula:
  assumes numeric: "get_heart_rate_data env p \<noteq> []"
  shows "get_stress_indicators env p \<noteq> [] \<and>
         map stress_date (get_stress_indicators env p)
           = sort (remdups (map (\<lambda>(t, v). date_of t) (get_heart_rate_data env p))) \<and>
         (\<forall>row \<in> set (get_stress_indicators env p).
            day_values (get_heart_rate_data env p) (stress_date row) \<noteq> [] \<and>
            stress_index row
              = min 10 (max 1 (raw_index (day_values (get_heart_rate_data env p) (stress_date row)))) \<and>
            1 \<le> stress_index row \<and> stress_index row \<le> 10 \<and>
            (length (day_values (get_heart_rate_data env p) (stress_date row)) = 1
               \<longrightarrow> stress_index row = 1))"
proof -
  define data where "data = get_heart_rate_data env p"
  define dates where "dates = sort (remdups (map (\<lambda>(t, v). date_of t) data))"
  have ne: "by_date data \<noteq> []" using numeric by (simp add: by_date_def data_def)
  have tab: "get_stress_indicators env p = map (\<lambda>d. stress_row_of d (day_values data d)) dates"
    using ne
    by (simp add: get_stress_indicators_def Let_def data_def [symmetric] rows_on_by_date
          group_dates_by_date dates_def)
  have dates_ne: "dates \<noteq> []"
    using numeric by (cases data) (auto simp: dates_def data_def simp flip: set_empty)
  have date_row: "stress_date (stress_row_of d vs) = d" for d vs
    by (simp add: stress_row_of_def)
  have each: "day_values data d \<noteq> [] \<and>
              stress_index (stress_row_of d (day_values data d))
                = min 10 (max 1 (raw_index (day_values data d))) \<and>
              1 \<le> stress_index (stress_row_of d (day_values data d)) \<and>
              stress_index (stress_row_of d (day_values data d)) \<le> 10 \<and>
              (length (day_values data d) = 1
                 \<longrightarrow> stress_index (stress_row_of d (day_values data d)) = 1)"
    if "d \<in> set dates" for d
  proof -
    have "d \<in> set (map (\<lambda>(t, v). date_of t) data)" using that by (simp add: dates_def)
    then have a: "day_values data d \<noteq> []" by (rule day_values_nonempty)
    have single: "stress_index (stress_row_of d (day_values data d)) = 1"
      if "length (day_values data d) = 1"
    proof -
      from that obtain v where "day_values data d = [v]"
        by (cases "day_values data d") auto
      then show ?thesis by (simp add: stress_index_raw raw_index_single)
    qed
    show ?thesis using a single by (simp add: stress_index_raw)
  qed
  have rows: "day_values data (stress_date row) \<noteq> [] \<and>
            stress_index row = min 10 (max 1 (raw_index (day_values data (stress_date row)))) \<and>
            1 \<le> stress_index row \<and> stress_index row \<le> 10 \<and>
            (length (day_values data (stress_date row)) = 1 \<longrightarrow> stress_index row = 1)"
    if "row \<in> set (get_stress_indicators env p)" for row
  proof -
    from that obtain d where d: "d \<in> set dates" "row = stress_row_of d (day_values data d)"
      unfolding tab by auto
    show ?thesis
      unfolding d(2) date_row using each [OF d(1)] .
  qed
  have "get_stress_indicators env p \<noteq> []"
    using dates_ne by (simp add: tab)
  moreover have "map stress_date (get_stress_indicators env p) = dates"
    by (simp add: tab comp_def date_row)
  ultimately show ?thesis
    using rows unfolding data_def dates_def by blast
qed

theorem stress_index_is_clipped_formula_witness:
  "get_heart_rate_data demo_env hr_parser \<noteq> [] \<and>
   map stress_date (get_stress_indicators demo_env hr_parser) = [19723, 19724] \<and>
   map stress_index (get_stress_indicators demo_env hr_parser) = [14 / 5, 1]"
proof -
  have numeric: "get_heart_rate_data demo_env hr_parser \<noteq> []"
    by (simp add: hr_data_demo)
  have dates: "sort (remdups (map (\<lambda>(t, v). date_of t) (get_heart_rate_data demo_env hr_parser)))
                 = [19723, 19724]"
    by (simp add: hr_data_demo date_of_def)
  have v1: "day_values (get_heart_rate_data demo_env hr_parser) 19723 = [60, 80, 100]"
    and v2: "day_values (get_heart_rate_data demo_env hr_parser) 19724 = [70]"
    by (simp_all add: hr_data_demo day_values_def date_of_def)
  have r1: "min 10 (max 1 (raw_index [60, 80, 100])) = 14 / 5"
    by (simp add: raw_index_def sample_std_def sqrt_400)
  have r2: "min 10 (max 1 (raw_index [70])) = 1"
    by (simp add: raw_index_def)
  note main = stress_index_is_clipped_formula [OF numeric]
  from main have d: "map stress_date (get_stress_indicators demo_env hr_parser) = [19723, 19724]"
    using dates by simp
  then obtain a b where ab: "get_stress_indicators demo_env hr_parser = [a, b]"
    "stress_date a = 19723" "stress_date b = 19724"
    by auto
  have "stress_index a = 14 / 5" "stress_index b = 1"
    using main ab v1 v2 r1 r2 by auto
  then show ?thesis using numeric d ab by simp
qed

section \<open>The aggregate tables and the clock\<close>




text \<open>
  The hypothesis on the dates is needed for the dates that parse, too: a step record dated
  \<^verbatim>\<open>now\<close> parses at any time, and moves with the clock as the undated one does.
\<close>

lemma record_dated_now_moves_with_the_clock:
  "get_daily_step_count (demo_env\<lparr>now := 1704200000\<rparr>) now_parser = [(19724, 200)] \<and>
   get_daily_step_count (demo_env\<lparr>now := 1704300000\<rparr>) now_parser = [(19725, 200)] \<and>
   \<not> dates_fixed demo_env 1704200000 1704300000 now_parser"
  by (simp add: get_daily_step_count_def get_step_count_data_def records_of_types_def step_types_def
        hr_types_def sleep_types_def
        now_parser_def dated_values_def List.map_filter_def extract_value_def value_fields_def
        extract_date_def date_fields_def has_truthy_def rec_get_def demo_env_def
        safe_date_conversion_def dates_fixed_def first_date_fixed_def date_fixed_def
        by_date_def group_dates_def rows_on_def date_of_def riqi_def Let_def)

section \<open>Saving a cache file\<close>

text \<open>
  Claim C6, as the code has it: a save first computes the source stamp and, where it is
  unavailable, writes nothing; \<^verbatim>\<open>save_dashboard_cache\<close> then returns \<^verbatim>\<open>False\<close>, while
  \<^verbatim>\<open>_save_cache\<close> returns as on every path and prints nothing. Otherwise the payload goes
  to a temporary file that is renamed into place: afterwards the cache file holds the
  payload and no temporary file is left. On an I/O error every file but the temporary one
  is as before, the temporary one is removed unless the removal fails too, and the call
  returns: \<^verbatim>\<open>save_dashboard_cache\<close> with \<^verbatim>\<open>False\<close>, \<^verbatim>\<open>_save_cache\<close> after printing a
  failure line. In every case the files of the sources are as before, but for the
  modification time of the directory of the cache file.
\<close>

theorem cache_save_outcomes:
  "(get_source_stamp w source_path = Some None \<longrightarrow>
      save_cache w p cache_path source_path = Some (w, [])) \<and>
   (\<forall>stamp. get_source_stamp w source_path = Some (Some stamp) \<longrightarrow>
      (\<exists>w' msgs. save_cache w p cache_path source_path = Some (w', msgs) \<and>
         same_files_but_mtime (dirname cache_path) w w' \<and>
         (if fault w = NoFault
          then written w w' cache_path (store_payload stamp p) \<and>
               MEMORY_CACHE w' cache_path = Some (store_payload stamp p) \<and>
               msgs = [''Saved cache to '' @ cache_path]
          else write_failed w w' cache_path \<and> MEMORY_CACHE w' = MEMORY_CACHE w \<and>
               msgs = [''Failed to save cache '' @ cache_path]))) \<and>
   (dashboard_get_source_stamp w source_path = Some None \<longrightarrow>
      save_dashboard_cache w source_path stats dashboard_chart data_types = Some (False, w)) \<and>
   (\<forall>stamp. dashboard_get_source_stamp w source_path = Some (Some stamp) \<longrightarrow>
      (\<exists>w'. save_dashboard_cache w source_path stats dashboard_chart data_types
               = Some (fault w = NoFault, w') \<and>
         same_files_but_mtime (dirname (dashboard_cache_path_for_source w source_path)) w w' \<and>
         (if fault w = NoFault
          then written w w' (dashboard_cache_path_for_source w source_path)
                 (dashboard_payload stamp stats dashboard_chart data_types)
          else write_failed w w' (dashboard_cache_path_for_source w source_path))))"
proof (intro conjI allI impI)
  assume "get_source_stamp w source_path = Some None"
  then show "save_cache w p cache_path source_path = Some (w, [])"
    by (simp add: save_cache_def)
next
  fix stamp assume st: "get_source_stamp w source_path = Some (Some stamp)"
  show "\<exists>w' msgs. save_cache w p cache_path source_path = Some (w', msgs) \<and>
         same_files_but_mtime (dirname cache_path) w w' \<and>
         (if fault w = NoFault
          then written w w' cache_path (store_payload stamp p) \<and>
               MEMORY_CACHE w' cache_path = Some (store_payload stamp p) \<and>
               msgs = [''Saved cache to '' @ cache_path]
          else write_failed w w' cache_path \<and> MEMORY_CACHE w' = MEMORY_CACHE w \<and>
               msgs = [''Failed to save cache '' @ cache_path])"
  proof (cases "fault w = NoFault")
    case True
    obtain w1 where w1: "write_and_replace (cache_path @ ''.tmp'') cache_path (store_payload stamp p) w = (True, w1)"
      and sf: "same_files (touch (dirname cache_path) w) w1"
      and cf: "cache_files w1 = (cache_files w)(cache_path @ ''.tmp'' := None,
                  cache_path \<mapsto> Pickled (store_payload stamp p))"
      using write_ok [OF True] by blast
    have "same_files (touch (dirname cache_path) w)
            (store_memory_cache cache_path (store_payload stamp p) w1)"
      using sf by (simp add: same_files_def)
    then show ?thesis
      using True st w1 cf
      by (simp add: save_cache_def Let_def same_files_but_mtime_def written_def)
  next
    case False
    obtain w1 where w1: "write_and_replace (cache_path @ ''.tmp'') cache_path (store_payload stamp p) w = (False, w1)"
      and rest: "same_files_but_mtime (dirname cache_path) w (remove_tmp (cache_path @ ''.tmp'') w1)"
        "\<forall>q. q \<noteq> cache_path @ ''.tmp'' \<longrightarrow>
                cache_files (remove_tmp (cache_path @ ''.tmp'') w1) q = cache_files w q"
        "\<not> remove_fails w \<longrightarrow> cache_files (remove_tmp (cache_path @ ''.tmp'') w1) (cache_path @ ''.tmp'') = None"
        "MEMORY_CACHE (remove_tmp (cache_path @ ''.tmp'') w1) = MEMORY_CACHE w"
      using write_fails [OF False] by blast
    show ?thesis
      using False st w1 rest
      by (simp add: save_cache_def Let_def write_failed_def)
  qed
next
  assume "dashboard_get_source_stamp w source_path = Some None"
  then show "save_dashboard_cache w source_path stats dashboard_chart data_types = Some (False, w)"
    by (simp add: save_dashboard_cache_def)
next
  fix stamp assume st: "dashboard_get_source_stamp w source_path = Some (Some stamp)"
  let ?cp = "dashboard_cache_path_for_source w source_path"
  let ?pl = "dashboard_payload stamp stats dashboard_chart data_types"
  show "\<exists>w'. save_dashboard_cache w source_path stats dashboard_chart data_types
               = Some (fault w = NoFault, w') \<and>
         same_files_but_mtime (dirname ?cp) w w' \<and>
         (if fault w = NoFault then written w w' ?cp ?pl else write_failed w w' ?cp)"
  proof (cases "fault w = NoFault")
    case True
    obtain w1 where w1: "write_and_replace (?cp @ ''.tmp'') ?cp ?pl w = (True, w1)"
      and sf: "same_files (touch (dirname ?cp) w) w1"
      and cf: "cache_files w1 = (cache_files w)(?cp @ ''.tmp'' := None, ?cp \<mapsto> Pickled ?pl)"
      using write_ok [OF True] by blast
    show ?thesis
      using True st w1 cf sf
      by (simp add: save_dashboard_cache_def Let_def same_files_but_mtime_def written_def)
  next
    case False
    obtain w1 where w1: "write_and_replace (?cp @ ''.tmp'') ?cp ?pl w = (False, w1)"
      and rest: "same_files_but_mtime (dirname ?cp) w (remove_tmp (?cp @ ''.tmp'') w1)"
        "\<forall>q. q \<noteq> ?cp @ ''.tmp'' \<longrightarrow> cache_files (remove_tmp (?cp @ ''.tmp'') w1) q = cache_files w q"
        "\<not> remove_fails w \<longrightarrow> cache_files (remove_tmp (?cp @ ''.tmp'') w1) (?cp @ ''.tmp'') = None"
      using write_fails [OF False] by blast
    show ?thesis
      using False st w1 rest
      by (simp add: save_dashboard_cache_def Let_def write_failed_def)
  qed
qed


theorem cache_save_outcomes_witness:
  "(\<exists>w'. save_cache faulty_world demo_parser ''data/health_cache.pkl'' ''data/export.xml''
            = Some (w', [''Failed to save cache data/health_cache.pkl'']) \<and>
          cache_files w' ''data/health_cache.pkl'' = None \<and>
          cache_files w' ''data/health_cache.pkl.tmp'' = None) \<and>
   (\<exists>w'. save_dashboard_cache faulty_world ''data/export.xml'' PNone PNone PNone = Some (False, w') \<and>
          cache_files w' ''data/dashboard_cache.pkl'' = None \<and>
          cache_files w' ''data/dashboard_cache.pkl.tmp'' = None)"
proof -
  have st: "get_source_stamp faulty_world ''data/export.xml''
              = Some (Some (FileStamp ''data/export.xml'' 1700000000 600))"
    by (simp add: get_source_stamp.simps faulty_world_def file_world_def)
  have dst: "dashboard_get_source_stamp faulty_world ''data/export.xml''
              = Some (Some (FileStamp ''data/export.xml'' 1700000000 600))"
    by (simp add: dashboard_get_source_stamp.simps faulty_world_def file_world_def)
  have fl: "fault faulty_world \<noteq> NoFault" "\<not> remove_fails faulty_world"
    "cache_files faulty_world = (\<lambda>p. None)"
    by (simp_all add: faulty_world_def file_world_def)
  have dcp: "dashboard_cache_path_for_source faulty_world ''data/export.xml'' = ''data/dashboard_cache.pkl''"
    by (simp add: dashboard_cache_path_for_source_def faulty_world_def file_world_def dirname_def
          path_join_def DASHBOARD_CACHE_FILENAME_def)
  show ?thesis
    using cache_save_outcomes [of faulty_world "''data/export.xml''" demo_parser
            "''data/health_cache.pkl''" PNone PNone PNone] st dst fl dcp
    by (auto simp: write_failed_def)
qed

text \<open>
  As stated, the claim has every save report a failure where the stamp is unavailable.
  \<^verbatim>\<open>_save_cache\<close> does not: for an export that \<^verbatim>\<open>os.stat\<close> cannot read it leaves the world
  as it is and prints nothing.
\<close>

theorem save_cache_silent_when_stamp_unavailable:
  "get_source_stamp missing_world ''data/export.xml'' = Some None \<and>
   save_cache missing_world demo_parser ''data/health_cache.pkl'' ''data/export.xml''
     = Some (missing_world, []) \<and>
   \<not> reports_failure
        (snd (the (save_cache missing_world demo_parser ''data/health_cache.pkl'' ''data/export.xml'')))"
  by (simp add: get_source_stamp.simps save_cache_def missing_world_def file_world_def
        reports_failure_def)

section \<open>The record store after ingestion\<close>

text \<open>
  Claim C7 has the record store satisfy, after every ingestion: a record of the type index
  is in the full sequence, a record of the full sequence that carries a type is in the
  bucket of that type, and a record without a type is in the full sequence only. The CSV
  reader breaks the last part and the JSON reader the second. \<^verbatim>\<open>parse_csv_files\<close> tests
  \<^verbatim>\<open>if record_type:\<close>, and the \<^verbatim>\<open>nan\<close> that pandas gives for an empty type cell is truthy: the
  row without a type is put in the index, under the key \<^verbatim>\<open>nan\<close>. \<^verbatim>\<open>parse_json_files\<close> appends
  a record to the full sequence before it indexes it: where the type is a list, indexing
  raises \<^verbatim>\<open>TypeError\<close>, the record stays in the full sequence and in no bucket, and the
  records that follow it in the file (here a step record) are not read.
\<close>

theorem readers_break_store_invariant:
  "parse_csv_files notes_world new_parser ''sheets''
     = (True, \<lparr> records = [blank_row, step_row],
                record_types = [(PNaN 0, [blank_row]), (PStr ''StepCount'', [step_row])] \<rparr>) \<and>
   untyped blank_row \<and>
   indexed (snd (parse_csv_files notes_world new_parser ''sheets'')) blank_row \<and>
   parse_json_files notes_world new_parser ''lists''
     = (True, \<lparr> records = [list_typed_row], record_types = [] \<rparr>) \<and>
   \<not> untyped list_typed_row \<and>
   list_typed_row \<in> set (records (snd (parse_json_files notes_world new_parser ''lists''))) \<and>
   \<not> indexed (snd (parse_json_files notes_world new_parser ''lists'')) list_typed_row"
proof -
  have csv: "parse_csv_files notes_world new_parser ''sheets''
     = (True, \<lparr> records = [blank_row, step_row],
                record_types = [(PNaN 0, [blank_row]), (PStr ''StepCount'', [step_row])] \<rparr>)"
    by (simp add: parse_csv_files_def notes_world_def new_parser_def health_data_columns_def
          index_record_def rec_get_def blank_row_def step_row_def Let_def)
  have json: "parse_json_files notes_world new_parser ''lists''
     = (True, \<lparr> records = [list_typed_row], record_types = [] \<rparr>)"
    by (simp add: parse_json_files_def notes_world_def new_parser_def
          index_record_def rec_get_def list_typed_row_def step_row_def Let_def)
  have a: "untyped blank_row" "\<not> untyped list_typed_row"
    by (simp_all add: untyped_def rec_get_def blank_row_def list_typed_row_def)
  show ?thesis
    unfolding csv json using a
    by (simp add: indexed_def blank_row_def step_row_def list_typed_row_def)
qed

text \<open>
  The test \<^verbatim>\<open>if record_type:\<close> does keep a record without a type out of the index where the
  type is absent, \<^verbatim>\<open>None\<close> or empty; the \<^verbatim>\<open>nan\<close> of an empty cell is the one case it lets
  through. A record of the XML reader has strings only, so that reader never indexes a
  record without a type.
\<close>

lemma untyped_is_not_indexed:
  "untyped r \<Longrightarrow> \<forall>i. rec_get r ''type'' \<noteq> Some (PNaN i) \<Longrightarrow> index_record r ix = Some ix"
  by (auto simp: untyped_def index_record_def split: option.splits pyval.splits)

lemma untyped_xml_record_is_not_indexed:
  "untyped (attrib_record e) \<Longrightarrow> index_record (attrib_record e) ix = Some ix"
  by (rule untyped_is_not_indexed) (auto simp: rec_get_attrib_record)

section \<open>The sleep filter falls back to all rows\<close>

text \<open>
  Claim C8: where there are sleep rows and none of them carries a state of the asleep/in-bed
  vocabulary (compared in lower case), \<^verbatim>\<open>get_sleep_duration_daily\<close> computes the daily
  totals from all rows: the table is not empty, it has one line for every date on which a
  row starts, in ascending order, and the line of a date sums the hours of all rows of that
  date.
\<close>

theorem sleep_filter_fallback:
  assumes rows: "get_sleep_analysis_data env p \<noteq> []"
    and nomatch: "\<forall>row \<in> set (get_sleep_analysis_data env p). \<not> is_sleep_state row"
  shows "get_sleep_duration_daily env p \<noteq> [] \<and>
         get_sleep_duration_daily env p
           = map (\<lambda>d. (d, total_hours (get_sleep_analysis_data env p) d))
               (sort (remdups (map (\<lambda>row. date_of (row_start row))
                                   (get_sleep_analysis_data env p))))"
proof -
  have "filter is_sleep_state (get_sleep_analysis_data env p) = []"
    using nomatch by (simp add: filter_empty_conv)
  then have eq: "get_sleep_duration_daily env p = daily_sleep (get_sleep_analysis_data env p)"
    using rows by (simp add: get_sleep_duration_daily_def Let_def)
  have tot: "daily_sleep (get_sleep_analysis_data env p)
           = map (\<lambda>d. (d, total_hours (get_sleep_analysis_data env p) d))
               (sort (remdups (map (\<lambda>row. date_of (row_start row))
                                   (get_sleep_analysis_data env p))))"
    by (rule daily_sleep_totals) (simp add: sleep_rows_duration)
  have "sort (remdups (map (\<lambda>row. date_of (row_start row)) (get_sleep_analysis_data env p))) \<noteq> []"
    using rows by (cases "get_sleep_analysis_data env p") (auto simp flip: set_empty)
  then show ?thesis
    unfolding eq tot by simp
qed

theorem sleep_filter_fallback_witness:
  "get_sleep_analysis_data demo_env sleep_parser \<noteq> [] \<and>
   filter is_sleep_state (get_sleep_analysis_data demo_env sleep_parser) = [] \<and>
   get_sleep_duration_daily demo_env sleep_parser = [(19723, 8)]"
proof -
  have rows: "get_sleep_analysis_data demo_env sleep_parser =
     [\<lparr> row_start = 1704150000, row_end = Some 1704178800, row_duration = Some 8,
        row_value = Some (PStr ''HKCategoryValueSleepAnalysisAsleepCore'') \<rparr>]"
    by (simp add: get_sleep_analysis_data_def records_of_types_def sleep_types_def sleep_parser_def
        sleep_record_def List.map_filter_def sleep_row_of_def extract_date_def date_fields_def
        has_truthy_def rec_get_def safe_date_conversion_def demo_env_def sleep_end_date_def
        sleep_value_def hours_between_def Let_def)
  have nostate: "\<not> is_sleep_state \<lparr> row_start = 1704150000, row_end = Some 1704178800,
        row_duration = Some 8, row_value = Some (PStr ''HKCategoryValueSleepAnalysisAsleepCore'') \<rparr>"
    by (simp add: is_sleep_state_def lower_def lower_char_def sleep_states_def)
  have nonempty: "get_sleep_analysis_data demo_env sleep_parser \<noteq> []"
    using rows by simp
  have nomatch: "\<forall>row \<in> set (get_sleep_analysis_data demo_env sleep_parser). \<not> is_sleep_state row"
    using rows nostate by simp
  show ?thesis
    using sleep_filter_fallback [OF nonempty nomatch] rows nostate
    by (simp add: total_hours_def date_of_def)
qed

section \<open>Progress reports\<close>

text \<open>
  Claim C9: during one ingestion of an XML file the percents passed to the progress
  callback never decrease, no two consecutive ones are equal, and each lies between 5 and
  95. The read offset \<^verbatim>\<open>xml_file.tell()\<close> of a file that is read front to back does not go
  backwards; that is what the hypothesis on the offsets says.
\<close>

theorem progress_is_monotone:
  assumes run: "parse_xml w p xml_path cb = Some (ok, p', w', out)"
    and offsets: "\<forall>elems err. xml_content w xml_path = XmlDoc elems err \<longrightarrow> sorted (map tell elems)"
  shows "sorted out \<and> (\<forall>i. Suc i < length out \<longrightarrow> out ! i \<noteq> out ! Suc i) \<and>
         (\<forall>v \<in> set out. 5 \<le> v \<and> v \<le> 95)"
proof -
  have strict: "sorted_wrt (<) out \<and> (\<forall>v \<in> set out. 5 \<le> v \<and> v \<le> 95)"
  proof (cases "load_cache w p (cache_path_for_source w xml_path) xml_path")
    case None
    then show ?thesis using run by (simp add: parse_xml_def)
  next
    case (Some res)
    obtain b p1 w1 where res: "res = (b, p1, w1)" by (cases res) auto
    have sf: "same_files w w1" using Some res load_cache_same_files by blast
    show ?thesis
    proof (cases b)
      case True
      then show ?thesis using run Some res by (auto simp: parse_xml_def)
    next
      case False
      show ?thesis
      proof (cases "xml_content w1 xml_path")
        case XmlUnopenable
        then show ?thesis using run Some res False by (auto simp: parse_xml_def)
      next
        case (XmlDoc elems err)
        have "xml_content w xml_path = XmlDoc elems err"
          using sf XmlDoc by (simp add: same_files_def)
        then have sorted: "sorted (map tell elems)" using offsets by blast
        have pre: "\<forall>e \<in> set elems. \<forall>t. map_option st_size (stat w1 xml_path) = Some t
                      \<longrightarrow> - 1 \<le> progress_of (tell e) t"
          using progress_of_bounds by (smt (verit))
        have out: "out = fst (snd (xml_loop cb (map_option st_size (stat w1 xml_path)) elems p1 (- 1) 0))"
          using run Some res False XmlDoc
          by (auto simp: parse_xml_def split: prod.splits if_splits option.splits)
        show ?thesis
          unfolding out using xml_loop_out [OF sorted pre, of cb p1 0] by auto
      qed
    qed
  qed
  then have "\<forall>i j. i < j \<longrightarrow> j < length out \<longrightarrow> out ! i < out ! j"
    using sorted_wrt_nth_less by blast
  then have adj: "\<forall>i. Suc i < length out \<longrightarrow> out ! i \<noteq> out ! Suc i"
    by (metis lessI less_irrefl)
  have "sorted out"
    using strict strict_sorted_imp_sorted by blast
  then show ?thesis using adj strict by blast
qed

theorem progress_is_monotone_witness:
  "(\<exists>ok p' w'. parse_xml big_world new_parser ''data/export.xml'' True
                 = Some (ok, p', w', [50, 95])) \<and>
   sorted [50, 95 :: int] \<and> [50, 95 :: int] ! 0 \<noteq> [50, 95] ! 1 \<and>
   5 \<le> (50 :: int) \<and> (95 :: int) \<le> 95"
proof -
  obtain ok p' w' where
    run: "parse_xml big_world new_parser ''data/export.xml'' True = Some (ok, p', w', [50, 95])"
    using parse_big_world by blast
  have offsets: "\<forall>elems err. xml_content big_world ''data/export.xml'' = XmlDoc elems err
                   \<longrightarrow> sorted (map tell elems)"
    by (simp add: big_world_def big_elems_def hr_elem_def sorted_append)
  show ?thesis
    using progress_is_monotone [OF run offsets] run by simp
qed

section \<open>An empty cached store is a miss\<close>

text \<open>
  Claim C10: where the cached payload matches the cache version and the fresh stamp but
  its records list is empty (or absent), \<^verbatim>\<open>_load_cache\<close> returns \<^verbatim>\<open>False\<close>, from the memory
  tier and from the disk tier alike, so the caller parses the source again: \<^verbatim>\<open>parse_xml\<close>
  then reads the file and ends with exactly the records of the file.
\<close>

theorem empty_cache_is_a_miss:
  assumes exists: "cache_files w cache_path \<noteq> None"
    and stamp: "get_source_stamp w source_path = Some (Some stamp)"
    and tier: "(MEMORY_CACHE w cache_path = Some pl \<and> payload_truthy pl) \<or>
               ((case MEMORY_CACHE w cache_path of
                   None \<Rightarrow> True
                 | Some m \<Rightarrow> \<not> (payload_truthy m \<and> cache_version m = Some CACHE_VERSION \<and>
                                 source_stamp m = Some stamp)) \<and>
                cache_files w cache_path = Some (Pickled pl))"
    and version: "cache_version pl = Some CACHE_VERSION"
    and matches: "source_stamp pl = Some stamp"
    and empty: "pl_records pl = Some [] \<or> pl_records pl = None"
  shows "(\<exists>p' w'. load_cache w p cache_path source_path = Some (False, p', w') \<and> records p' = []) \<and>
         (cache_path = cache_path_for_source w source_path \<longrightarrow>
          xml_content w source_path = XmlDoc elems False \<longrightarrow>
          (\<exists>p'' w'' out. parse_xml w p source_path cb
               = Some (filter (\<lambda>e. tag e = ''Record'') elems \<noteq> [], p'', w'', out) \<and>
             records p'' = map attrib_record (filter (\<lambda>e. tag e = ''Record'') elems)))"
proof -
  have rec0: "records (use_payload pl p) = []"
    using empty by (auto simp: use_payload_def)
  have load: "\<exists>w'. load_cache w p cache_path source_path = Some (False, use_payload pl p, w')"
    using tier
  proof
    assume "MEMORY_CACHE w cache_path = Some pl \<and> payload_truthy pl"
    then show ?thesis
      using exists stamp version matches rec0 by (auto simp: load_cache_def)
  next
    assume "(case MEMORY_CACHE w cache_path of
                   None \<Rightarrow> True
                 | Some m \<Rightarrow> \<not> (payload_truthy m \<and> cache_version m = Some CACHE_VERSION \<and>
                                 source_stamp m = Some stamp)) \<and>
                cache_files w cache_path = Some (Pickled pl)"
    then show ?thesis
      using stamp version matches rec0 by (auto simp: load_cache_def split: option.splits)
  qed
  then obtain w' where w': "load_cache w p cache_path source_path = Some (False, use_payload pl p, w')"
    by blast
  have first: "\<exists>p' w'. load_cache w p cache_path source_path = Some (False, p', w') \<and> records p' = []"
    using w' rec0 by blast
  have second: "\<exists>p'' w'' out. parse_xml w p source_path cb
               = Some (filter (\<lambda>e. tag e = ''Record'') elems \<noteq> [], p'', w'', out) \<and>
             records p'' = map attrib_record (filter (\<lambda>e. tag e = ''Record'') elems)"
    if cp: "cache_path = cache_path_for_source w source_path"
      and doc: "xml_content w source_path = XmlDoc elems False"
  proof -
    have sf: "same_files w w'" using w' by (rule load_cache_same_files)
    have doc': "xml_content w' source_path = XmlDoc elems False"
      using sf doc by (simp add: same_files_def)
    obtain q out ok where loop:
      "xml_loop cb (map_option st_size (stat w' source_path)) elems (use_payload pl p) (- 1) 0 = (q, out, ok)"
      by (metis prod_cases3)
    have q: "ok" "records q = map attrib_record (filter (\<lambda>e. tag e = ''Record'') elems)"
      using xml_loop_records [OF loop] rec0 by simp_all
    have "get_source_stamp w' source_path = Some (Some stamp)"
      using same_files_stamp [OF sf] stamp by simp
    then obtain w'' msgs where
      save: "save_cache w' q (cache_path_for_source w source_path) source_path = Some (w'', msgs)"
      using save_cache_returns by blast
    show ?thesis
      using w' cp doc' loop q save by (simp add: parse_xml_def)
  qed
  show ?thesis using first second by blast
qed

theorem empty_cache_is_a_miss_witness:
  "(\<exists>p' w'. load_cache empty_cache_world demo_parser ''data/health_cache.pkl'' ''data/export.xml''
              = Some (False, p', w') \<and> records p' = []) \<and>
   (\<exists>p'' w'' out. parse_xml empty_cache_world demo_parser ''data/export.xml'' True
              = Some (True, p'', w'', out) \<and>
            records p'' = map attrib_record (filter (\<lambda>e. tag e = ''Record'') demo_elems))"
proof -
  have exists: "cache_files empty_cache_world ''data/health_cache.pkl'' \<noteq> None"
    by (simp add: empty_cache_world_def)
  have stamp: "get_source_stamp empty_cache_world ''data/export.xml''
                 = Some (Some (FileStamp ''data/export.xml'' 1700000000 600))"
    by (simp add: get_source_stamp.simps empty_cache_world_def file_world_def)
  have tier: "(MEMORY_CACHE empty_cache_world ''data/health_cache.pkl'' = Some empty_payload \<and>
                payload_truthy empty_payload) \<or>
              ((case MEMORY_CACHE empty_cache_world ''data/health_cache.pkl'' of
                  None \<Rightarrow> True
                | Some m \<Rightarrow> \<not> (payload_truthy m \<and> cache_version m = Some CACHE_VERSION \<and>
                     source_stamp m = Some (FileStamp ''data/export.xml'' 1700000000 600))) \<and>
               cache_files empty_cache_world ''data/health_cache.pkl'' = Some (Pickled empty_payload))"
    by (simp add: empty_cache_world_def file_world_def)
  have version: "cache_version empty_payload = Some CACHE_VERSION"
    by (simp add: empty_payload_def CACHE_VERSION_def)
  have matches: "source_stamp empty_payload = Some (FileStamp ''data/export.xml'' 1700000000 600)"
    by (simp add: empty_payload_def)
  have empty: "pl_records empty_payload = Some [] \<or> pl_records empty_payload = None"
    by (simp add: empty_payload_def)
  have cp: "''data/health_cache.pkl'' = cache_path_for_source empty_cache_world ''data/export.xml''"
    by (simp add: cache_path_for_source_def empty_cache_world_def file_world_def dirname_def
          path_join_def CACHE_FILENAME_def)
  have doc: "xml_content empty_cache_world ''data/export.xml'' = XmlDoc demo_elems False"
    by (simp add: empty_cache_world_def file_world_def)
  have some: "filter (\<lambda>e. tag e = ''Record'') demo_elems \<noteq> []"
    by (simp add: demo_elems_def hr_elem_def)
  show ?thesis
    using empty_cache_is_a_miss [OF exists stamp tier version matches empty,
            of demo_parser demo_elems True] cp doc some
    by simp
qed

end
